theory Spec2Isabelle
  imports Main "HOL-Library.AList"
begin

section \<open>JavaScript values and objects\<close>

text \<open>
  The values that reach the server are the results of \<^verbatim>\<open>JSON.parse\<close>, plus
  \<^verbatim>\<open>undefined\<close> for a property that is read but absent. Numbers stand for the
  integer-valued numbers; an object or array nested inside a message is a reference, compared by
  identity as \<^verbatim>\<open>===\<close> does. On these values \<^verbatim>\<open>===\<close> is equality.
\<close>

datatype jsval =
    JUndefined
  | JNull
  | JBool bool
  | JNum int
  | JStr string
  | JRef nat

text \<open>A plain object: its own properties. A property may be present with the value
  \<^verbatim>\<open>undefined\<close>, which is what an object literal \<^verbatim>\<open>{x0: data.x0}\<close> produces
  when \<^verbatim>\<open>data\<close> has no \<^verbatim>\<open>x0\<close>.\<close>

type_synonym jsobj = "string \<rightharpoonup> jsval"

text \<open>Truthiness, as used by \<^verbatim>\<open>||\<close> and \<^verbatim>\<open>if\<close>.\<close>

fun truthy :: "jsval \<Rightarrow> bool" where
  "truthy JUndefined = False"
| "truthy JNull = False"
| "truthy (JBool b) = b"
| "truthy (JNum n) = (n \<noteq> 0)"
| "truthy (JStr s) = (s \<noteq> [])"
| "truthy (JRef r) = True"

text \<open>\<^verbatim>\<open>a || b\<close>\<close>

definition js_or :: "jsval \<Rightarrow> jsval \<Rightarrow> jsval" where
  "js_or a b = (if truthy a then a else b)"

text \<open>Property read \<^verbatim>\<open>obj.k\<close>: \<^verbatim>\<open>undefined\<close> when absent.\<close>

definition get :: "jsobj \<Rightarrow> string \<Rightarrow> jsval" where
  "get obj k = (case obj k of None \<Rightarrow> JUndefined | Some v \<Rightarrow> v)"

text \<open>\<^verbatim>\<open>k in obj\<close>\<close>

definition has_field :: "string \<Rightarrow> jsobj \<Rightarrow> bool" where
  "has_field k obj = (obj k \<noteq> None)"

text \<open>\<^verbatim>\<open>Array.prototype.findIndex\<close>; \<^verbatim>\<open>-1\<close> is \<open>None\<close>.\<close>

fun findIndex :: "('a \<Rightarrow> bool) \<Rightarrow> 'a list \<Rightarrow> nat option" where
  "findIndex p [] = None"
| "findIndex p (x # xs) =
     (if p x then Some 0 else (case findIndex p xs of None \<Rightarrow> None | Some i \<Rightarrow> Some (Suc i)))"

section \<open>DrawingState (server/drawing-state.js)\<close>

record DrawingState =
  drawingHistory :: "jsobj list"
  operationHistory :: "jsobj list"
  operationStack :: "jsobj list"
  redoStack :: "jsobj list"
  maxHistorySize :: nat
  ds_createdAt :: int

text \<open>The constructor; its argument is the value \<^verbatim>\<open>Date.now()\<close> returns.\<close>

definition new_DrawingState :: "int \<Rightarrow> DrawingState" where
  "new_DrawingState now =
     \<lparr> drawingHistory = [], operationHistory = [], operationStack = [], redoStack = [],
       maxHistorySize = 500, ds_createdAt = now \<rparr>"

definition requiredBaseFields :: "string list" where
  "requiredBaseFields = [''type'', ''userId'', ''timestamp'']"

definition validTypes :: "jsval list" where
  "validTypes = [JStr ''DRAW'', JStr ''ERASE'', JStr ''CLEAR_CANVAS'']"

definition requiredDrawFields :: "string list" where
  "requiredDrawFields = [''x0'', ''y0'', ''x1'', ''y1'', ''color'', ''size'']"

definition requiredEraseFields :: "string list" where
  "requiredEraseFields = [''x0'', ''y0'', ''x1'', ''y1'', ''size'']"

definition validateOperation :: "jsobj \<Rightarrow> bool" where
  "validateOperation operation =
     (if \<not> list_all (\<lambda>field. has_field field operation) requiredBaseFields then False
      else if get operation ''type'' \<notin> set validTypes then False
      else if get operation ''type'' = JStr ''DRAW''
              \<and> \<not> list_all (\<lambda>field. has_field field operation) requiredDrawFields then False
      else if get operation ''type'' = JStr ''ERASE''
              \<and> \<not> list_all (\<lambda>field. has_field field operation) requiredEraseFields then False
      else True)"

text \<open>The id the engine gives an operation: \<^verbatim>\<open>operation.operationId || uuidv4()\<close>.
  The second argument is the string \<^verbatim>\<open>uuidv4()\<close> returns when it is called.\<close>

definition op_id :: "jsobj \<Rightarrow> string \<Rightarrow> jsval" where
  "op_id operation uuid = js_or (get operation ''operationId'') (JStr uuid)"

text \<open>\<^verbatim>\<open>{...operation, id: operation.operationId || uuidv4(), addedAt: Date.now()}\<close>\<close>

definition enrich :: "jsobj \<Rightarrow> string \<Rightarrow> int \<Rightarrow> jsobj" where
  "enrich operation uuid now =
     operation(''id'' \<mapsto> op_id operation uuid, ''addedAt'' \<mapsto> JNum now)"

definition addOperation :: "jsobj \<Rightarrow> string \<Rightarrow> int \<Rightarrow> DrawingState \<Rightarrow> bool \<times> DrawingState" where
  "addOperation operation uuid now s =
     (if \<not> validateOperation operation then (False, s)
      else
        let enrichedOp = enrich operation uuid now;
            pushed = drawingHistory s @ [enrichedOp];
            trimmed = (if length pushed > maxHistorySize s then tl pushed else pushed)
        in (True, s\<lparr> drawingHistory := trimmed,
                     operationStack := operationStack s @ [operation],
                     redoStack := [] \<rparr>))"

definition recordUndo :: "jsobj \<Rightarrow> int \<Rightarrow> DrawingState \<Rightarrow> bool \<times> DrawingState" where
  "recordUndo undoOp now s =
     (case findIndex (\<lambda>op. get op ''id'' = get undoOp ''operationId'') (drawingHistory s) of
        None \<Rightarrow> (False, s)
      | Some operationIndex \<Rightarrow>
          let removedOperation = drawingHistory s ! operationIndex;
              spliced = take operationIndex (drawingHistory s)
                        @ drop (Suc operationIndex) (drawingHistory s);
              entry = ([''type'' \<mapsto> JStr ''UNDO''] ++ undoOp)
                        (''removedOperationId'' \<mapsto> get undoOp ''operationId'',
                         ''timestamp'' \<mapsto> JNum now)
          in (True, s\<lparr> drawingHistory := spliced,
                       redoStack := redoStack s @ [removedOperation],
                       operationHistory := operationHistory s @ [entry] \<rparr>))"

definition recordRedo :: "jsobj \<Rightarrow> int \<Rightarrow> DrawingState \<Rightarrow> bool \<times> DrawingState" where
  "recordRedo redoOp now s =
     (if length (redoStack s) = 0 then (False, s)
      else
        let operation = last (redoStack s);
            entry = ([''type'' \<mapsto> JStr ''REDO''] ++ redoOp)
                      (''readdedOperationId'' \<mapsto> get operation ''id'',
                       ''timestamp'' \<mapsto> JNum now)
        in (True, s\<lparr> redoStack := butlast (redoStack s),
                     drawingHistory := drawingHistory s @ [operation],
                     operationHistory := operationHistory s @ [entry] \<rparr>))"

definition getHistory :: "DrawingState \<Rightarrow> jsobj list" where
  "getHistory s = drawingHistory s"

definition getOperationHistory :: "DrawingState \<Rightarrow> jsobj list" where
  "getOperationHistory s = operationHistory s"

definition clear :: "DrawingState \<Rightarrow> DrawingState" where
  "clear s = s\<lparr> drawingHistory := [], operationHistory := [], operationStack := [],
               redoStack := [] \<rparr>"

text \<open>A caller of the log: one of its four mutating methods, with the values the environment
  supplies to that call (\<^verbatim>\<open>uuidv4()\<close>, \<^verbatim>\<open>Date.now()\<close>).\<close>

datatype command =
    Append jsobj string int
  | Undo jsobj int
  | Redo jsobj int
  | Clear

fun step :: "DrawingState \<Rightarrow> command \<Rightarrow> DrawingState" where
  "step s (Append operation uuid now) = snd (addOperation operation uuid now s)"
| "step s (Undo undoOp now) = snd (recordUndo undoOp now s)"
| "step s (Redo redoOp now) = snd (recordRedo redoOp now s)"
| "step s Clear = clear s"

definition run :: "DrawingState \<Rightarrow> command list \<Rightarrow> DrawingState" where
  "run s cmds = foldl step s cmds"

section \<open>DrawingRoom and RoomManager (server/rooms.js)\<close>

definition USER_COLORS :: "string list" where
  "USER_COLORS =
     [''#FF6B6B'', ''#4ECDC4'', ''#45B7D1'', ''#FFA07A'',
      ''#98D8C8'', ''#F7DC6F'', ''#BB8FCE'', ''#85C1E2'',
      ''#F8B88B'', ''#A8D8EA'', ''#AA96DA'', ''#FCBAD3'']"

text \<open>A script error that unwinds the running handler.\<close>

datatype error = ReferenceError string

record ClientInfo =
  userId :: string
  username :: jsval
  color :: jsval
  joinedAt :: int
  ci_lastActivityAt :: int
  isActive :: bool

text \<open>A WebSocket connection object is identified by a number; the clients of a room are a
  \<^verbatim>\<open>Map\<close> keyed by connection, kept here in insertion order.\<close>

type_synonym ws = nat

record DrawingRoom =
  room_id :: jsval
  clients :: "(ws \<times> ClientInfo) list"
  drawingState :: DrawingState
  userColorIndex :: nat
  createdAt :: int
  lastActivityAt :: int

text \<open>The constructor. The clock is read once for each event the server handles; the reads of
  \<^verbatim>\<open>Date.now()\<close> made while one event is handled all return that value.\<close>

definition new_DrawingRoom :: "jsval \<Rightarrow> int \<Rightarrow> DrawingRoom" where
  "new_DrawingRoom roomId now =
     \<lparr> room_id = roomId, clients = [], drawingState = new_DrawingState now,
       userColorIndex = 0, createdAt = now, lastActivityAt = now \<rparr>"

text \<open>The variables that the body of \<^verbatim>\<open>addClient\<close> can name and that hold values of the
  model: its three parameters and its local constant. The module-level bindings of rooms.js
  (\<^verbatim>\<open>uuidv4\<close>, \<^verbatim>\<open>DrawingState\<close>, \<^verbatim>\<open>USER_COLORS\<close>, \<^verbatim>\<open>DrawingRoom\<close>,
  \<^verbatim>\<open>RoomManager\<close>) and the globals of the runtime are functions, classes and objects with
  other names.\<close>

definition addClient_scope :: "ws \<Rightarrow> string \<Rightarrow> jsval \<Rightarrow> string \<Rightarrow> (string \<times> jsval) list" where
  "addClient_scope w uid uname assignedColor =
     [(''ws'', JRef w), (''userId'', JStr uid), (''username'', uname),
      (''assignedColor'', JStr assignedColor)]"

text \<open>Reading an identifier: its value, or a ReferenceError when no binding has that name.\<close>

definition resolve :: "(string \<times> jsval) list \<Rightarrow> string \<Rightarrow> error + jsval" where
  "resolve scope name =
     (case map_of scope name of None \<Rightarrow> Inl (ReferenceError name) | Some v \<Rightarrow> Inr v)"

text \<open>\<^verbatim>\<open>addClient(ws, userId, username)\<close>. The object literal for \<^verbatim>\<open>clientInfo\<close> has the
  shorthand property \<^verbatim>\<open>color\<close>, which reads the identifier \<^verbatim>\<open>color\<close>. The counter has
  been incremented by then, and stays so when the read throws.\<close>

definition addClient ::
  "ws \<Rightarrow> string \<Rightarrow> jsval \<Rightarrow> int \<Rightarrow> DrawingRoom \<Rightarrow> (error + ClientInfo) \<times> DrawingRoom" where
  "addClient w uid uname now room =
     (let assignedColor = USER_COLORS ! (userColorIndex room mod length USER_COLORS);
          room1 = room\<lparr> userColorIndex := userColorIndex room + 1 \<rparr>
      in case resolve (addClient_scope w uid uname assignedColor) ''color'' of
           Inl e \<Rightarrow> (Inl e, room1)
         | Inr c \<Rightarrow>
             let clientInfo = \<lparr> userId = uid, username = uname, color = c, joinedAt = now,
                                ci_lastActivityAt = now, isActive = True \<rparr>
             in (Inr clientInfo,
                 room1\<lparr> clients := AList.update w clientInfo (clients room1),
                        lastActivityAt := now \<rparr>))"

definition removeClient :: "ws \<Rightarrow> DrawingRoom \<Rightarrow> ClientInfo option \<times> DrawingRoom" where
  "removeClient w room =
     (case map_of (clients room) w of
        Some clientInfo \<Rightarrow> (Some clientInfo, room\<lparr> clients := AList.delete w (clients room) \<rparr>)
      | None \<Rightarrow> (None, room))"

record ActiveUser =
  au_userId :: string
  au_username :: jsval
  au_color :: jsval
  au_joinedAt :: int

definition getActiveUsers :: "DrawingRoom \<Rightarrow> ActiveUser list" where
  "getActiveUsers room =
     map (\<lambda>(w, clientInfo). \<lparr> au_userId = userId clientInfo, au_username = username clientInfo,
                              au_color = color clientInfo, au_joinedAt = joinedAt clientInfo \<rparr>)
         (filter (\<lambda>(w, clientInfo). isActive clientInfo) (clients room))"

definition getClientCount :: "DrawingRoom \<Rightarrow> nat" where
  "getClientCount room = length (clients room)"

definition isEmpty :: "DrawingRoom \<Rightarrow> bool" where
  "isEmpty room = (length (clients room) = 0)"

definition recordOperation :: "jsobj \<Rightarrow> string \<Rightarrow> int \<Rightarrow> DrawingRoom \<Rightarrow> DrawingRoom" where
  "recordOperation operation uuid now room =
     room\<lparr> drawingState := snd (addOperation operation uuid now (drawingState room)),
           lastActivityAt := now \<rparr>"

definition getDrawingHistory :: "DrawingRoom \<Rightarrow> jsobj list" where
  "getDrawingHistory room = getHistory (drawingState room)"

definition clearDrawing :: "int \<Rightarrow> DrawingRoom \<Rightarrow> DrawingRoom" where
  "clearDrawing now room = room\<lparr> drawingState := clear (drawingState room), lastActivityAt := now \<rparr>"

record RoomStats =
  rs_id :: jsval
  rs_clientCount :: nat
  rs_operationCount :: nat
  rs_createdAt :: int
  rs_lastActivityAt :: int
  rs_uptime :: int
  rs_users :: "ActiveUser list"

definition getStats :: "int \<Rightarrow> DrawingRoom \<Rightarrow> RoomStats" where
  "getStats now room =
     \<lparr> rs_id = room_id room, rs_clientCount = length (clients room),
       rs_operationCount = length (getHistory (drawingState room)),
       rs_createdAt = createdAt room, rs_lastActivityAt = lastActivityAt room,
       rs_uptime = now - createdAt room, rs_users = getActiveUsers room \<rparr>"

definition destroy :: "DrawingRoom \<Rightarrow> DrawingRoom" where
  "destroy room = room\<lparr> clients := [], drawingState := clear (drawingState room) \<rparr>"

text \<open>What the server passes to \<^verbatim>\<open>JSON.stringify\<close> and sends.\<close>

datatype message =
    Flat jsobj
  | LOAD_HISTORY "jsobj list" "jsobj list" ClientInfo RoomStats
  | USER_JOINED "ActiveUser list" nat
  | USER_LEFT "ActiveUser list" nat

text \<open>
  The process state. Room objects live in a store and are reached through references: the
  manager's \<^verbatim>\<open>rooms\<close> map holds one per room id, and each connection holds one in its
  \<^verbatim>\<open>currentRoom\<close> variable, which may outlive the room's entry in the manager. The
  \<open>readyState\<close> of each connection belongs to the transport. \<open>outbox\<close> records every call of
  \<^verbatim>\<open>ws.send\<close>, in order, as the connection and the object sent. A \<^verbatim>\<open>send\<close> that throws
  inside \<^verbatim>\<open>broadcast\<close> is caught there for that connection alone, so the calls that
  \<^verbatim>\<open>broadcast\<close> makes do not depend on it; outside \<^verbatim>\<open>broadcast\<close> the transport's
  \<^verbatim>\<open>send\<close> is taken not to throw.
\<close>

record Server =
  heap :: "nat \<Rightarrow> DrawingRoom"
  next_ref :: nat
  rooms :: "(jsval \<times> nat) list"
  readyState :: "ws \<Rightarrow> int"
  outbox :: "(ws \<times> message) list"

definition send :: "ws \<Rightarrow> message \<Rightarrow> Server \<Rightarrow> Server" where
  "send w m srv = srv\<lparr> outbox := outbox srv @ [(w, m)] \<rparr>"

text \<open>\<^verbatim>\<open>room.broadcast(data, excludeWs)\<close> on the room at reference \<open>a\<close>.\<close>

definition broadcast :: "nat \<Rightarrow> message \<Rightarrow> ws option \<Rightarrow> Server \<Rightarrow> Server" where
  "broadcast a data excludeWs srv =
     foldl (\<lambda>s (w, clientInfo).
              if readyState s w = 1 \<and> Some w \<noteq> excludeWs then send w data s else s)
           srv (clients (heap srv a))"

definition broadcastAll :: "nat \<Rightarrow> message \<Rightarrow> Server \<Rightarrow> Server" where
  "broadcastAll a data srv = broadcast a data None srv"

definition getOrCreateRoom :: "jsval \<Rightarrow> int \<Rightarrow> Server \<Rightarrow> nat \<times> Server" where
  "getOrCreateRoom roomId now srv =
     (case map_of (rooms srv) roomId of
        Some a \<Rightarrow> (a, srv)
      | None \<Rightarrow>
          let a = next_ref srv
          in (a, srv\<lparr> heap := (heap srv)(a := new_DrawingRoom roomId now),
                      next_ref := Suc a,
                      rooms := rooms srv @ [(roomId, a)] \<rparr>))"

definition getRoom :: "jsval \<Rightarrow> Server \<Rightarrow> nat option" where
  "getRoom roomId srv = map_of (rooms srv) roomId"

definition deleteRoom :: "jsval \<Rightarrow> Server \<Rightarrow> Server" where
  "deleteRoom roomId srv =
     (case map_of (rooms srv) roomId of
        Some a \<Rightarrow> srv\<lparr> heap := (heap srv)(a := destroy (heap srv a)),
                       rooms := AList.delete roomId (rooms srv) \<rparr>
      | None \<Rightarrow> srv)"

text \<open>One run of the callback that \<^verbatim>\<open>startCleanupInterval\<close> schedules every 60 seconds.\<close>

definition oneHourInMs :: int where
  "oneHourInMs = 60 * 60 * 1000"

definition cleanupSweep :: "int \<Rightarrow> Server \<Rightarrow> Server" where
  "cleanupSweep now srv =
     (let inactivityThreshold = now - oneHourInMs
      in foldl (\<lambda>s (roomId, a).
                  if isEmpty (heap s a) \<and> lastActivityAt (heap s a) < inactivityThreshold
                  then deleteRoom roomId s else s)
               srv (rooms srv))"

section \<open>The connection handler (server entry file)\<close>

text \<open>The variables of one connection's closure.\<close>

record Conn =
  conn_ws :: ws
  conn_userId :: string
  conn_username :: jsval
  currentRoom :: "nat option"
  userInfo :: "ClientInfo option"

text \<open>A new connection: \<open>uid\<close> is what \<^verbatim>\<open>uuidv4()\<close> returns, \<open>uname\<close> the generated
  \<^verbatim>\<open>User-NNNN\<close>.\<close>

definition new_Conn :: "ws \<Rightarrow> string \<Rightarrow> string \<Rightarrow> Conn" where
  "new_Conn w uid uname =
     \<lparr> conn_ws = w, conn_userId = uid, conn_username = JStr uname,
       currentRoom = None, userInfo = None \<rparr>"

text \<open>The process at start: no room, nothing sent. The store maps the references not yet given
  out to a filler that nothing reads; \<open>rs\<close> is the state of the transport's connections.\<close>

definition new_Server :: "int \<Rightarrow> (ws \<Rightarrow> int) \<Rightarrow> Server" where
  "new_Server now rs =
     \<lparr> heap = (\<lambda>a. new_DrawingRoom JUndefined now), next_ref = 0, rooms = [],
       readyState = rs, outbox = [] \<rparr>"

definition handleJoinRoom :: "jsobj \<Rightarrow> int \<Rightarrow> Conn \<times> Server \<Rightarrow> (error + unit) \<times> Conn \<times> Server" where
  "handleJoinRoom data now cs =
     (let conn = fst cs; srv = snd cs;
          roomId = js_or (get data ''roomId'') (JStr ''default'');
          uname = js_or (get data ''username'') (conn_username conn);
          (a, srv1) = getOrCreateRoom roomId now srv;
          conn1 = conn\<lparr> conn_username := uname, currentRoom := Some a \<rparr>
      in case addClient (conn_ws conn) (conn_userId conn) uname now (heap srv1 a) of
           (Inl e, room1) \<Rightarrow> (Inl e, conn1, srv1\<lparr> heap := (heap srv1)(a := room1) \<rparr>)
         | (Inr info, room1) \<Rightarrow>
             let srv2 = srv1\<lparr> heap := (heap srv1)(a := room1) \<rparr>;
                 conn2 = conn1\<lparr> userInfo := Some info \<rparr>;
                 srv3 = send (conn_ws conn)
                          (LOAD_HISTORY (getDrawingHistory room1)
                             (getOperationHistory (drawingState room1)) info (getStats now room1))
                          srv2;
                 srv4 = broadcastAll a
                          (USER_JOINED (getActiveUsers room1) (getClientCount room1)) srv3
             in (Inr (), conn2, srv4))"

text \<open>The operation object that \<^verbatim>\<open>handleDraw\<close> builds. Its literal names the key
  \<^verbatim>\<open>x1\<close> twice (\<^verbatim>\<open>x1: data.x1, x1: data.y1\<close>); the later value wins, and the object has no
  property \<^verbatim>\<open>y1\<close>.\<close>

definition draw_operation :: "string \<Rightarrow> jsobj \<Rightarrow> jsobj" where
  "draw_operation uid data =
     [''type'' \<mapsto> JStr ''DRAW'', ''userId'' \<mapsto> JStr uid,
      ''x0'' \<mapsto> get data ''x0'', ''y0'' \<mapsto> get data ''y0'',
      ''x1'' \<mapsto> get data ''x1'', ''x1'' \<mapsto> get data ''y1'',
      ''color'' \<mapsto> get data ''color'', ''size'' \<mapsto> get data ''size'',
      ''timestamp'' \<mapsto> get data ''timestamp'', ''operationId'' \<mapsto> get data ''operationId'']"

text \<open>The object that \<^verbatim>\<open>handleDraw\<close> relays.\<close>

definition draw_relay :: "string \<Rightarrow> jsobj \<Rightarrow> jsobj" where
  "draw_relay uid data =
     [''type'' \<mapsto> JStr ''DRAW'', ''userId'' \<mapsto> JStr uid,
      ''x0'' \<mapsto> get data ''x0'', ''y0'' \<mapsto> get data ''y0'',
      ''x1'' \<mapsto> get data ''x1'', ''y1'' \<mapsto> get data ''y1'',
      ''color'' \<mapsto> get data ''color'', ''size'' \<mapsto> get data ''size'',
      ''timestamp'' \<mapsto> get data ''timestamp'', ''operationId'' \<mapsto> get data ''operationId'']"

definition handleDraw :: "jsobj \<Rightarrow> string \<Rightarrow> int \<Rightarrow> Conn \<times> Server \<Rightarrow> Conn \<times> Server" where
  "handleDraw data uuid now cs =
     (let conn = fst cs; srv = snd cs
      in case currentRoom conn of
           None \<Rightarrow> (conn, srv)
         | Some a \<Rightarrow>
             if conn_userId conn = [] then (conn, srv)
             else
               let operation = draw_operation (conn_userId conn) data;
                   srv1 = srv\<lparr> heap := (heap srv)(a := recordOperation operation uuid now (heap srv a)) \<rparr>
               in (conn, broadcast a (Flat (draw_relay (conn_userId conn) data))
                           (Some (conn_ws conn)) srv1))"

text \<open>\<^verbatim>\<open>handleErase\<close> stores and relays objects with the same properties.\<close>

definition erase_operation :: "string \<Rightarrow> jsobj \<Rightarrow> jsobj" where
  "erase_operation uid data =
     [''type'' \<mapsto> JStr ''ERASE'', ''userId'' \<mapsto> JStr uid,
      ''x0'' \<mapsto> get data ''x0'', ''y0'' \<mapsto> get data ''y0'',
      ''x1'' \<mapsto> get data ''x1'', ''y1'' \<mapsto> get data ''y1'',
      ''size'' \<mapsto> get data ''size'',
      ''timestamp'' \<mapsto> get data ''timestamp'', ''operationId'' \<mapsto> get data ''operationId'']"

definition handleErase :: "jsobj \<Rightarrow> string \<Rightarrow> int \<Rightarrow> Conn \<times> Server \<Rightarrow> Conn \<times> Server" where
  "handleErase data uuid now cs =
     (let conn = fst cs; srv = snd cs
      in case currentRoom conn of
           None \<Rightarrow> (conn, srv)
         | Some a \<Rightarrow>
             if conn_userId conn = [] then (conn, srv)
             else
               let operation = erase_operation (conn_userId conn) data;
                   srv1 = srv\<lparr> heap := (heap srv)(a := recordOperation operation uuid now (heap srv a)) \<rparr>
               in (conn, broadcast a (Flat (erase_operation (conn_userId conn) data))
                           (Some (conn_ws conn)) srv1))"

definition undo_message :: "string \<Rightarrow> jsobj \<Rightarrow> jsobj" where
  "undo_message uid data =
     [''type'' \<mapsto> JStr ''UNDO'', ''userId'' \<mapsto> JStr uid,
      ''operationId'' \<mapsto> get data ''operationId'', ''timestamp'' \<mapsto> get data ''timestamp'']"

definition handleUndo :: "jsobj \<Rightarrow> int \<Rightarrow> Conn \<times> Server \<Rightarrow> Conn \<times> Server" where
  "handleUndo data now cs =
     (let conn = fst cs; srv = snd cs
      in case currentRoom conn of
           None \<Rightarrow> (conn, srv)
         | Some a \<Rightarrow>
             let (success, ds) = recordUndo data now (drawingState (heap srv a))
             in if success
                then (conn, broadcastAll a (Flat (undo_message (conn_userId conn) data))
                              (srv\<lparr> heap := (heap srv)(a := (heap srv a)\<lparr> drawingState := ds \<rparr>) \<rparr>))
                else (conn, srv))"

definition redo_message :: "string \<Rightarrow> jsobj \<Rightarrow> jsobj" where
  "redo_message uid data =
     [''type'' \<mapsto> JStr ''REDO'', ''userId'' \<mapsto> JStr uid,
      ''operationId'' \<mapsto> get data ''operationId'', ''timestamp'' \<mapsto> get data ''timestamp'']"

definition handleRedo :: "jsobj \<Rightarrow> int \<Rightarrow> Conn \<times> Server \<Rightarrow> Conn \<times> Server" where
  "handleRedo data now cs =
     (let conn = fst cs; srv = snd cs
      in case currentRoom conn of
           None \<Rightarrow> (conn, srv)
         | Some a \<Rightarrow>
             let (success, ds) = recordRedo data now (drawingState (heap srv a))
             in if success
                then (conn, broadcastAll a (Flat (redo_message (conn_userId conn) data))
                              (srv\<lparr> heap := (heap srv)(a := (heap srv a)\<lparr> drawingState := ds \<rparr>) \<rparr>))
                else (conn, srv))"

definition clear_message :: "string \<Rightarrow> jsobj \<Rightarrow> jsobj" where
  "clear_message uid data =
     [''type'' \<mapsto> JStr ''CLEAR_CANVAS'', ''userId'' \<mapsto> JStr uid,
      ''timestamp'' \<mapsto> get data ''timestamp'']"

definition handleClearCanvas :: "jsobj \<Rightarrow> int \<Rightarrow> Conn \<times> Server \<Rightarrow> Conn \<times> Server" where
  "handleClearCanvas data now cs =
     (let conn = fst cs; srv = snd cs
      in case currentRoom conn of
           None \<Rightarrow> (conn, srv)
         | Some a \<Rightarrow>
             (conn, broadcastAll a (Flat (clear_message (conn_userId conn) data))
                      (srv\<lparr> heap := (heap srv)(a := clearDrawing now (heap srv a)) \<rparr>)))"

definition cursor_message :: "string \<Rightarrow> jsobj \<Rightarrow> jsobj" where
  "cursor_message uid data =
     [''type'' \<mapsto> JStr ''CURSOR_MOVE'', ''userId'' \<mapsto> JStr uid,
      ''x'' \<mapsto> get data ''x'', ''y'' \<mapsto> get data ''y'']"

definition handleCursorMove :: "jsobj \<Rightarrow> Conn \<times> Server \<Rightarrow> Conn \<times> Server" where
  "handleCursorMove data cs =
     (let conn = fst cs; srv = snd cs
      in case currentRoom conn of
           None \<Rightarrow> (conn, srv)
         | Some a \<Rightarrow>
             (conn, broadcast a (Flat (cursor_message (conn_userId conn) data))
                      (Some (conn_ws conn)) srv))"

definition error_message :: jsobj where
  "error_message =
     [''type'' \<mapsto> JStr ''ERROR'', ''message'' \<mapsto> JStr ''Server failed to process your message'']"

text \<open>\<^verbatim>\<open>ws.on('message')\<close> for a message that parses to an object \<open>data\<close>: the
  \<^verbatim>\<open>switch\<close> on \<^verbatim>\<open>data.type\<close>, inside the \<^verbatim>\<open>try\<close> whose \<^verbatim>\<open>catch\<close> replies with an
  error message to the sender.\<close>

definition on_message :: "jsobj \<Rightarrow> string \<Rightarrow> int \<Rightarrow> Conn \<times> Server \<Rightarrow> Conn \<times> Server" where
  "on_message data uuid now cs =
     (if get data ''type'' = JStr ''JOIN_ROOM'' then
        (case handleJoinRoom data now cs of
           (Inl e, conn1, srv1) \<Rightarrow> (conn1, send (conn_ws conn1) (Flat error_message) srv1)
         | (Inr u, conn1, srv1) \<Rightarrow> (conn1, srv1))
      else if get data ''type'' = JStr ''DRAW'' then handleDraw data uuid now cs
      else if get data ''type'' = JStr ''ERASE'' then handleErase data uuid now cs
      else if get data ''type'' = JStr ''UNDO'' then handleUndo data now cs
      else if get data ''type'' = JStr ''REDO'' then handleRedo data now cs
      else if get data ''type'' = JStr ''CLEAR_CANVAS'' then handleClearCanvas data now cs
      else if get data ''type'' = JStr ''CURSOR_MOVE'' then handleCursorMove data cs
      else cs)"

text \<open>\<^verbatim>\<open>ws.on('close')\<close>\<close>

definition on_close :: "Conn \<times> Server \<Rightarrow> Conn \<times> Server" where
  "on_close cs =
     (let conn = fst cs; srv = snd cs
      in case currentRoom conn of
           None \<Rightarrow> (conn, srv)
         | Some a \<Rightarrow>
             let room1 = snd (removeClient (conn_ws conn) (heap srv a));
                 srv1 = srv\<lparr> heap := (heap srv)(a := room1) \<rparr>
             in if \<not> isEmpty room1
                then (conn, broadcastAll a
                              (USER_LEFT (getActiveUsers room1) (getClientCount room1)) srv1)
                else (conn, deleteRoom (room_id room1) srv1))"

section \<open>Vocabulary for the statements\<close>

text \<open>A list of appends, each with the values the environment supplies, as commands; the
  operations as the log stores them; the ids the log gives them.\<close>

definition appends :: "(jsobj \<times> string \<times> int) list \<Rightarrow> command list" where
  "appends ops = map (\<lambda>(operation, uuid, now). Append operation uuid now) ops"

definition enriched :: "(jsobj \<times> string \<times> int) list \<Rightarrow> jsobj list" where
  "enriched ops = map (\<lambda>(operation, uuid, now). enrich operation uuid now) ops"

definition appended_ids :: "(jsobj \<times> string \<times> int) list \<Rightarrow> jsval list" where
  "appended_ids ops = map (\<lambda>(operation, uuid, now). op_id operation uuid) ops"

text \<open>The ids of the operations in a list, in order.\<close>

definition ids_of :: "jsobj list \<Rightarrow> jsval list" where
  "ids_of h = map (\<lambda>op. get op ''id'') h"

text \<open>The id that a command appends, if it is an append.\<close>

fun appended_id :: "command \<Rightarrow> jsval option" where
  "appended_id (Append operation uuid now) = Some (op_id operation uuid)"
| "appended_id (Undo undoOp now) = None"
| "appended_id (Redo redoOp now) = None"
| "appended_id Clear = None"

text \<open>Whether a command is a redo.\<close>

fun is_redo :: "command \<Rightarrow> bool" where
  "is_redo (Append operation uuid now) = False"
| "is_redo (Undo undoOp now) = False"
| "is_redo (Redo redoOp now) = True"
| "is_redo Clear = False"

text \<open>The capacity invariant: the history and the redo buffer together hold at most 500
  operations, the bound the constructor sets.\<close>

definition within_capacity :: "DrawingState \<Rightarrow> bool" where
  "within_capacity s \<longleftrightarrow>
     maxHistorySize s = 500 \<and> length (drawingHistory s) + length (redoStack s) \<le> 500"

text \<open>No operation with id \<open>x\<close> is in the history or in the redo buffer.\<close>

definition absent :: "jsval \<Rightarrow> DrawingState \<Rightarrow> bool" where
  "absent x s \<longleftrightarrow> x \<notin> set (ids_of (drawingHistory s)) \<and> x \<notin> set (ids_of (redoStack s))"

text \<open>The connections registered in the room at reference \<open>a\<close> whose \<open>readyState\<close> is
  OPEN (1), in the order of registration.\<close>

definition open_clients :: "nat \<Rightarrow> Server \<Rightarrow> ws list" where
  "open_clients a srv = filter (\<lambda>w. readyState srv w = 1) (map fst (clients (heap srv a)))"

section \<open>Sample inputs\<close>

text \<open>An ERASE message as a client sends it, with the given operation id, and the operation
  object the server builds from it for the user \<^verbatim>\<open>user-1\<close>.\<close>

definition erase_data :: "string \<Rightarrow> jsobj" where
  "erase_data oid =
     [''type'' \<mapsto> JStr ''ERASE'', ''x0'' \<mapsto> JNum 0, ''y0'' \<mapsto> JNum 0,
      ''x1'' \<mapsto> JNum 5, ''y1'' \<mapsto> JNum 5, ''size'' \<mapsto> JNum 3,
      ''timestamp'' \<mapsto> JNum 1, ''operationId'' \<mapsto> JStr oid]"

definition sample_op :: "string \<Rightarrow> jsobj" where
  "sample_op oid = erase_operation ''user-1'' (erase_data oid)"

text \<open>An UNDO message naming an operation id, and a REDO message.\<close>

definition undo_data :: "string \<Rightarrow> jsobj" where
  "undo_data oid =
     [''type'' \<mapsto> JStr ''UNDO'', ''userId'' \<mapsto> JStr ''user-1'',
      ''operationId'' \<mapsto> JStr oid, ''timestamp'' \<mapsto> JNum 2]"

definition redo_data :: jsobj where
  "redo_data = [''type'' \<mapsto> JStr ''REDO'', ''userId'' \<mapsto> JStr ''user-1'', ''timestamp'' \<mapsto> JNum 3]"

text \<open>A CLEAR_CANVAS operation with the three base fields and an operation id.\<close>

definition clear_op :: jsobj where
  "clear_op =
     [''type'' \<mapsto> JStr ''CLEAR_CANVAS'', ''userId'' \<mapsto> JStr ''user-1'',
      ''timestamp'' \<mapsto> JNum 1, ''operationId'' \<mapsto> JStr ''c1'']"

text \<open>Operations with numeric ids 1, 2, 3, ... and requests to undo them.\<close>

definition numbered_op :: "nat \<Rightarrow> jsobj" where
  "numbered_op k = (sample_op ''op'')(''operationId'' \<mapsto> JNum (1 + int k))"

definition numbered_ops :: "nat \<Rightarrow> (jsobj \<times> string \<times> int) list" where
  "numbered_ops n = map (\<lambda>k. (numbered_op k, ''uuid'', int k)) [0..<n]"

definition undo_numbered :: "nat \<Rightarrow> jsobj" where
  "undo_numbered k = [''type'' \<mapsto> JStr ''UNDO'', ''operationId'' \<mapsto> JNum (1 + int k)]"

text \<open>The DRAW message of the specification's scenario and a JOIN_ROOM message.\<close>

definition draw_data :: jsobj where
  "draw_data =
     [''type'' \<mapsto> JStr ''DRAW'', ''x0'' \<mapsto> JNum 0, ''y0'' \<mapsto> JNum 0,
      ''x1'' \<mapsto> JNum 5, ''y1'' \<mapsto> JNum 5, ''color'' \<mapsto> JStr ''#000'', ''size'' \<mapsto> JNum 3,
      ''timestamp'' \<mapsto> JNum 1, ''operationId'' \<mapsto> JStr ''o1'']"

definition join_data :: jsobj where
  "join_data = [''type'' \<mapsto> JStr ''JOIN_ROOM'', ''roomId'' \<mapsto> JStr ''r1'', ''username'' \<mapsto> JStr ''A'']"

text \<open>A process in which room \<^verbatim>\<open>r1\<close> exists at reference 0 with a given client map and
  the log that a list of commands produces, and a connection whose \<^verbatim>\<open>currentRoom\<close> is that
  room.\<close>

definition sample_info :: "string \<Rightarrow> ClientInfo" where
  "sample_info uid =
     \<lparr> userId = uid, username = JStr ''guest'', color = JStr ''#FF6B6B'', joinedAt = 0,
       ci_lastActivityAt = 0, isActive = True \<rparr>"

definition sample_room :: "(ws \<times> ClientInfo) list \<Rightarrow> command list \<Rightarrow> DrawingRoom" where
  "sample_room cl cmds =
     (new_DrawingRoom (JStr ''r1'') 0)
       \<lparr> clients := cl, drawingState := run (new_DrawingState 0) cmds \<rparr>"

definition sample_server ::
  "(ws \<times> ClientInfo) list \<Rightarrow> (ws \<Rightarrow> int) \<Rightarrow> command list \<Rightarrow> Server" where
  "sample_server cl rs cmds =
     (new_Server 0 rs)
       \<lparr> heap := (heap (new_Server 0 rs))(0 := sample_room cl cmds), next_ref := 1,
         rooms := [(JStr ''r1'', 0)] \<rparr>"

definition one_stroke :: "command list" where
  "one_stroke = [Append (sample_op ''a'') ''uuid-1'' 10]"

definition undone_stroke :: "command list" where
  "undone_stroke = [Append (sample_op ''a'') ''uuid-1'' 10, Undo (undo_data ''a'') 11]"

definition sample_conn :: "ws \<Rightarrow> Conn" where
  "sample_conn w = (new_Conn w ''user-1'' ''User-1'')\<lparr> currentRoom := Some 0 \<rparr>"

definition three_clients :: "(ws \<times> ClientInfo) list" where
  "three_clients = [(11, sample_info ''user-1''), (12, sample_info ''user-2''), (13, sample_info ''user-3'')]"

definition sole_client :: "(ws \<times> ClientInfo) list" where
  "sole_client = [(11, sample_info ''user-1'')]"

definition third_closed :: "ws \<Rightarrow> int" where
  "third_closed w = (if w = 13 then 3 else 1)"

definition all_open :: "ws \<Rightarrow> int" where
  "all_open w = 1"

text \<open>A process that has just started, with one connection that has not joined yet.\<close>

definition fresh_process :: "Conn \<times> Server" where
  "fresh_process = (new_Conn 11 ''user-1'' ''User-1'', new_Server 0 all_open)"

text \<open>501 appends in which the last one reuses the operation id of the first, and two
  appends with one operation id.\<close>

definition reused_id_ops :: "(jsobj \<times> string \<times> int) list" where
  "reused_id_ops = numbered_ops 500 @ [(numbered_op 0, ''uuid'', 500)]"

definition twice_same_id :: "(jsobj \<times> string \<times> int) list" where
  "twice_same_id = [(numbered_op 0, ''uuid'', 0), (numbered_op 0, ''uuid'', 1)]"

text \<open>A CLEAR_CANVAS message.\<close>

definition clear_data :: jsobj where
  "clear_data = [''type'' \<mapsto> JStr ''CLEAR_CANVAS'', ''userId'' \<mapsto> JStr ''user-1'', ''timestamp'' \<mapsto> JNum 5]"

text \<open>Two connections, A (11) and B (12), on a process that has just started; both have sent
  JOIN_ROOM for \<^verbatim>\<open>r1\<close>. Then A sends a DRAW message; or A sends an ERASE message, then UNDO
  for it, then REDO, then CLEAR_CANVAS.\<close>

definition second_conn :: Conn where
  "second_conn = new_Conn 12 ''user-2'' ''User-2''"

definition two_joined :: "Conn \<times> Conn \<times> Server" where
  "two_joined =
     (let (connA, srv1) = on_message join_data ''uuid-0'' 1 fresh_process;
          (connB, srv2) = on_message join_data ''uuid-0'' 2 (second_conn, srv1)
      in (connA, connB, srv2))"

definition joined_A :: Conn where
  "joined_A = fst two_joined"

definition joined_B :: Conn where
  "joined_B = fst (snd two_joined)"

definition joined_srv :: Server where
  "joined_srv = snd (snd two_joined)"

definition drawn :: "Conn \<times> Server" where
  "drawn = on_message draw_data ''uuid-1'' 3 (joined_A, joined_srv)"

definition erased :: "Conn \<times> Server" where
  "erased = on_message (erase_data ''e1'') ''uuid-1'' 3 (joined_A, joined_srv)"

definition undone :: "Conn \<times> Server" where
  "undone = on_message (undo_data ''e1'') ''uuid-2'' 4 erased"

definition redone :: "Conn \<times> Server" where
  "redone = on_message redo_data ''uuid-3'' 5 undone"

definition cleared :: "Conn \<times> Server" where
  "cleared = on_message clear_data ''uuid-4'' 6 redone"

section \<open>Properties of the operation log\<close>

lemma findIndex_None_iff: "findIndex p xs = None \<longleftrightarrow> (\<forall>x \<in> set xs. \<not> p x)"
  by (induction xs) (auto split: option.splits)

lemma findIndex_Some_less: "findIndex p xs = Some i \<Longrightarrow> i < length xs \<and> p (xs ! i)"
  by (induction xs arbitrary: i) (auto split: if_splits option.splits)

lemma get_enrich_id: "get (enrich operation uuid now) ''id'' = op_id operation uuid"
  by (simp add: enrich_def get_def)

lemma addOperation_valid:
  "validateOperation operation \<Longrightarrow>
   addOperation operation uuid now s =
     (True, s\<lparr> drawingHistory :=
                 (if length (drawingHistory s) + 1 > maxHistorySize s
                  then tl (drawingHistory s @ [enrich operation uuid now])
                  else drawingHistory s @ [enrich operation uuid now]),
               operationStack := operationStack s @ [operation],
               redoStack := [] \<rparr>)"
  by (simp add: addOperation_def Let_def)

lemma addOperation_invalid:
  "\<not> validateOperation operation \<Longrightarrow> addOperation operation uuid now s = (False, s)"
  by (simp add: addOperation_def)

lemma recordUndo_miss:
  "findIndex (\<lambda>op. get op ''id'' = get undoOp ''operationId'') (drawingHistory s) = None \<Longrightarrow>
   recordUndo undoOp now s = (False, s)"
  by (simp add: recordUndo_def)

lemma recordUndo_hit:
  "findIndex (\<lambda>op. get op ''id'' = get undoOp ''operationId'') (drawingHistory s) = Some i \<Longrightarrow>
   fst (recordUndo undoOp now s) \<and>
   drawingHistory (snd (recordUndo undoOp now s)) =
     take i (drawingHistory s) @ drop (Suc i) (drawingHistory s) \<and>
   redoStack (snd (recordUndo undoOp now s)) = redoStack s @ [drawingHistory s ! i] \<and>
   maxHistorySize (snd (recordUndo undoOp now s)) = maxHistorySize s"
  by (simp add: recordUndo_def Let_def)

lemma recordRedo_empty:
  "redoStack s = [] \<Longrightarrow> recordRedo redoOp now s = (False, s)"
  by (simp add: recordRedo_def)

lemma recordRedo_nonempty:
  "redoStack s \<noteq> [] \<Longrightarrow>
   fst (recordRedo redoOp now s) \<and>
   drawingHistory (snd (recordRedo redoOp now s)) = drawingHistory s @ [last (redoStack s)] \<and>
   redoStack (snd (recordRedo redoOp now s)) = butlast (redoStack s) \<and>
   maxHistorySize (snd (recordRedo redoOp now s)) = maxHistorySize s"
  by (simp add: recordRedo_def Let_def)

lemma run_Nil: "run s [] = s" by (simp add: run_def)
lemma run_Cons: "run s (c # cs) = run (step s c) cs" by (simp add: run_def)
lemma run_snoc: "run s (cs @ [c]) = step (run s cs) c" by (simp add: run_def)
lemma run_append: "run s (cs @ ds) = run (run s cs) ds" by (simp add: run_def)

lemma recordUndo_miss_iff:
  "(\<forall>op \<in> set (drawingHistory s). get op ''id'' \<noteq> get undoOp ''operationId'') \<Longrightarrow>
   recordUndo undoOp now s = (False, s)"
  by (rule recordUndo_miss) (simp add: findIndex_None_iff)

lemma findIndex_Some_ex: "x \<in> set xs \<Longrightarrow> p x \<Longrightarrow> \<exists>i. findIndex p xs = Some i"
  by (cases "findIndex p xs") (auto simp: findIndex_None_iff)

lemma recordUndo_absent:
  "get undoOp ''operationId'' \<notin> set (ids_of (drawingHistory s)) \<Longrightarrow>
   recordUndo undoOp now s = (False, s)"
  by (rule recordUndo_miss_iff) (force simp: ids_of_def)

lemma recordUndo_present:
  assumes "get undoOp ''operationId'' \<in> set (ids_of (drawingHistory s))"
  shows "fst (recordUndo undoOp now s)"
proof -
  obtain op where "op \<in> set (drawingHistory s)" "get op ''id'' = get undoOp ''operationId''"
    using assms by (auto simp: ids_of_def)
  then obtain i where "findIndex (\<lambda>op. get op ''id'' = get undoOp ''operationId'') (drawingHistory s) = Some i"
    using findIndex_Some_ex [of op "drawingHistory s" "\<lambda>op. get op ''id'' = get undoOp ''operationId''"]
    by auto
  then show ?thesis using recordUndo_hit by blast
qed

subsection \<open>Facts about the sample inputs\<close>

lemma validateOperation_sample_op: "validateOperation (sample_op oid)"
  by (simp add: validateOperation_def sample_op_def erase_operation_def has_field_def get_def
      requiredBaseFields_def requiredEraseFields_def validTypes_def)

lemma op_id_sample_op: "op_id (sample_op oid) uuid = (if oid = [] then JStr uuid else JStr oid)"
  by (simp add: op_id_def js_or_def sample_op_def erase_operation_def erase_data_def get_def)

lemma get_undo_data: "get (undo_data oid) ''operationId'' = JStr oid"
  by (simp add: undo_data_def get_def)

lemma history_one_stroke:
  "drawingHistory (run (new_DrawingState 0) one_stroke) = [enrich (sample_op ''a'') ''uuid-1'' 10]"
  by (simp add: one_stroke_def run_def addOperation_valid validateOperation_sample_op
      new_DrawingState_def)

lemma redoStack_one_stroke: "redoStack (run (new_DrawingState 0) one_stroke) = []"
  by (simp add: one_stroke_def run_def addOperation_valid validateOperation_sample_op
      new_DrawingState_def)

lemma ids_one_stroke: "ids_of (drawingHistory (run (new_DrawingState 0) one_stroke)) = [JStr ''a'']"
  by (simp add: history_one_stroke ids_of_def get_enrich_id op_id_sample_op)

lemma redoStack_undone_stroke:
  "redoStack (run (new_DrawingState 0) undone_stroke) = [enrich (sample_op ''a'') ''uuid-1'' 10]"
proof -
  have "get (undo_data ''a'') ''operationId'' \<in> set (ids_of (drawingHistory (run (new_DrawingState 0) one_stroke)))"
    by (simp add: ids_one_stroke get_undo_data)
  then obtain i where i: "findIndex (\<lambda>op. get op ''id'' = get (undo_data ''a'') ''operationId'')
                            (drawingHistory (run (new_DrawingState 0) one_stroke)) = Some i"
    by (cases "findIndex (\<lambda>op. get op ''id'' = get (undo_data ''a'') ''operationId'')
                 (drawingHistory (run (new_DrawingState 0) one_stroke))")
       (auto simp: findIndex_None_iff ids_of_def)
  have "i < length (drawingHistory (run (new_DrawingState 0) one_stroke))"
    using findIndex_Some_less [OF i] by simp
  then have "i = 0" by (simp add: history_one_stroke)
  moreover have "run (new_DrawingState 0) undone_stroke
        = snd (recordUndo (undo_data ''a'') 11 (run (new_DrawingState 0) one_stroke))"
    by (simp add: undone_stroke_def one_stroke_def run_def)
  ultimately show ?thesis
    using recordUndo_hit [OF i, of 11] by (simp add: history_one_stroke redoStack_one_stroke)
qed

lemma validateOperation_numbered_op: "validateOperation (numbered_op k)"
  by (simp add: validateOperation_def numbered_op_def sample_op_def erase_operation_def
      has_field_def get_def requiredBaseFields_def requiredEraseFields_def validTypes_def)

lemma op_id_numbered_op: "op_id (numbered_op k) uuid = JNum (1 + int k)"
  by (simp add: op_id_def js_or_def numbered_op_def get_def)

lemma numbered_ops_valid: "list_all (\<lambda>x. validateOperation (fst x)) (numbered_ops n)"
  by (simp add: numbered_ops_def list_all_iff validateOperation_numbered_op)

lemma length_numbered_ops: "length (numbered_ops n) = n"
  by (simp add: numbered_ops_def)

lemma appended_ids_numbered_ops: "appended_ids (numbered_ops n) = map (\<lambda>k. JNum (1 + int k)) [0..<n]"
  by (simp add: appended_ids_def numbered_ops_def op_id_numbered_op comp_def)

lemma distinct_numbered_ops: "distinct (appended_ids (numbered_ops n))"
  by (simp add: appended_ids_numbered_ops distinct_map inj_on_def)

subsection \<open>Undo and redo\<close>

text \<open>
  C5. Starting from an empty log, appending valid operations A and B and then undoing A by its
  id leaves the history equal to [B]; the redo that follows succeeds and leaves the history equal
  to [B, A]: the restored operation is appended at the end. A and B are the enriched operations
  the log stores. Nothing is asked of the two ids: A is the first entry, so it is the one the
  search by id finds.
\<close>

theorem undo_redo_round_trip:
  assumes vA: "validateOperation A" and vB: "validateOperation B"
    and tgt: "get undoOp ''operationId'' = op_id A uA"
  shows "drawingHistory (run (new_DrawingState t0) [Append A uA tA, Append B uB tB])
           = [enrich A uA tA, enrich B uB tB]
       \<and> fst (recordUndo undoOp tU (run (new_DrawingState t0) [Append A uA tA, Append B uB tB]))
       \<and> drawingHistory (run (new_DrawingState t0) [Append A uA tA, Append B uB tB, Undo undoOp tU])
           = [enrich B uB tB]
       \<and> fst (recordRedo redoOp tR
                (run (new_DrawingState t0) [Append A uA tA, Append B uB tB, Undo undoOp tU]))
       \<and> drawingHistory
           (run (new_DrawingState t0)
              [Append A uA tA, Append B uB tB, Undo undoOp tU, Redo redoOp tR])
           = [enrich B uB tB, enrich A uA tA]"
proof -
  let ?s2 = "run (new_DrawingState t0) [Append A uA tA, Append B uB tB]"
  have h2: "drawingHistory ?s2 = [enrich A uA tA, enrich B uB tB]"
    and r2: "redoStack ?s2 = []"
    using vA vB by (simp_all add: run_def addOperation_valid new_DrawingState_def)
  have idx: "findIndex (\<lambda>op. get op ''id'' = get undoOp ''operationId'') (drawingHistory ?s2) = Some 0"
    by (simp add: h2 get_enrich_id tgt)
  note u = recordUndo_hit [OF idx, of tU]
  let ?s3 = "run (new_DrawingState t0) [Append A uA tA, Append B uB tB, Undo undoOp tU]"
  have s3: "?s3 = snd (recordUndo undoOp tU ?s2)" by (simp add: run_def)
  have h3: "drawingHistory ?s3 = [enrich B uB tB]" and r3: "redoStack ?s3 = [enrich A uA tA]"
    using u by (simp_all add: s3 h2 r2)
  have ne: "redoStack ?s3 \<noteq> []" by (simp add: r3)
  note r = recordRedo_nonempty [OF ne, of redoOp tR]
  have s4: "run (new_DrawingState t0)
              [Append A uA tA, Append B uB tB, Undo undoOp tU, Redo redoOp tR]
            = snd (recordRedo redoOp tR ?s3)" by (simp add: run_def)
  show ?thesis using h2 u h3 r r3 by (simp add: s4)
qed

theorem undo_redo_round_trip_witness:
  "validateOperation (sample_op ''a'') \<and> validateOperation (sample_op ''b'')
   \<and> get (undo_data ''a'') ''operationId'' = op_id (sample_op ''a'') ''uuid-1''
   \<and> drawingHistory
        (run (new_DrawingState 0)
           [Append (sample_op ''a'') ''uuid-1'' 10, Append (sample_op ''b'') ''uuid-2'' 11,
            Undo (undo_data ''a'') 12])
       = [enrich (sample_op ''b'') ''uuid-2'' 11]
   \<and> drawingHistory
        (run (new_DrawingState 0)
           [Append (sample_op ''a'') ''uuid-1'' 10, Append (sample_op ''b'') ''uuid-2'' 11,
            Undo (undo_data ''a'') 12, Redo redo_data 13])
       = [enrich (sample_op ''b'') ''uuid-2'' 11, enrich (sample_op ''a'') ''uuid-1'' 10]"
  using undo_redo_round_trip [of "sample_op ''a''" "sample_op ''b''" "undo_data ''a''" "''uuid-1''"
      0 10 "''uuid-2''" 11 12 redo_data 13]
  by (simp add: validateOperation_sample_op op_id_sample_op get_undo_data)

text \<open>
  C6. Every accepted append empties the redo buffer. In particular, from an empty log, after
  appending a valid A, undoing it by its id (which puts A on the redo buffer) and appending a
  valid C, the redo buffer is empty and a redo request returns failure and changes nothing.
\<close>

theorem append_clears_redo:
  assumes vA: "validateOperation A" and vC: "validateOperation C"
    and tgt: "get undoOp ''operationId'' = op_id A uA"
  shows "(validateOperation operation \<longrightarrow> redoStack (snd (addOperation operation uuid now s)) = [])
       \<and> redoStack (run (new_DrawingState t0) [Append A uA tA, Undo undoOp tU]) = [enrich A uA tA]
       \<and> fst (addOperation C uC tC (run (new_DrawingState t0) [Append A uA tA, Undo undoOp tU]))
       \<and> redoStack (run (new_DrawingState t0) [Append A uA tA, Undo undoOp tU, Append C uC tC]) = []
       \<and> recordRedo redoOp tR
           (run (new_DrawingState t0) [Append A uA tA, Undo undoOp tU, Append C uC tC])
         = (False, run (new_DrawingState t0) [Append A uA tA, Undo undoOp tU, Append C uC tC])"
proof -
  let ?s1 = "run (new_DrawingState t0) [Append A uA tA]"
  have h1: "drawingHistory ?s1 = [enrich A uA tA]" and r1: "redoStack ?s1 = []"
    using vA by (simp_all add: run_def addOperation_valid new_DrawingState_def)
  have idx: "findIndex (\<lambda>op. get op ''id'' = get undoOp ''operationId'') (drawingHistory ?s1) = Some 0"
    by (simp add: h1 get_enrich_id tgt)
  let ?s2 = "run (new_DrawingState t0) [Append A uA tA, Undo undoOp tU]"
  have s2: "?s2 = snd (recordUndo undoOp tU ?s1)" by (simp add: run_def)
  have r2: "redoStack ?s2 = [enrich A uA tA]"
    using recordUndo_hit [OF idx, of tU] by (simp add: s2 h1 r1)
  let ?s3 = "run (new_DrawingState t0) [Append A uA tA, Undo undoOp tU, Append C uC tC]"
  have s3: "?s3 = snd (addOperation C uC tC ?s2)" by (simp add: run_def)
  have a3: "fst (addOperation C uC tC ?s2)" using vC by (simp add: addOperation_valid)
  have r3: "redoStack ?s3 = []" using vC by (simp add: s3 addOperation_valid)
  have g: "validateOperation operation \<longrightarrow> redoStack (snd (addOperation operation uuid now s)) = []"
    by (simp add: addOperation_valid)
  show ?thesis using g r2 a3 r3 recordRedo_empty [OF r3] by simp
qed

theorem append_clears_redo_witness:
  "recordRedo redo_data 13
     (run (new_DrawingState 0)
        [Append (sample_op ''a'') ''uuid-1'' 10, Undo (undo_data ''a'') 11,
         Append (sample_op ''c'') ''uuid-2'' 12])
   = (False, run (new_DrawingState 0)
        [Append (sample_op ''a'') ''uuid-1'' 10, Undo (undo_data ''a'') 11,
         Append (sample_op ''c'') ''uuid-2'' 12])
   \<and> redoStack (run (new_DrawingState 0)
        [Append (sample_op ''a'') ''uuid-1'' 10, Undo (undo_data ''a'') 11])
     = [enrich (sample_op ''a'') ''uuid-1'' 10]"
  using append_clears_redo
      [where A = "sample_op ''a''" and C = "sample_op ''c''" and undoOp = "undo_data ''a''"
         and uA = "''uuid-1''" and ?t0.0 = 0 and tA = 10 and tU = 11 and uC = "''uuid-2''"
         and tC = 12 and redoOp = redo_data and tR = 13 and operation = "sample_op ''c''"
         and uuid = "''uuid-2''" and now = 12
         and s = "run (new_DrawingState 0) [Append (sample_op ''a'') ''uuid-1'' 10]"]
  by (simp add: validateOperation_sample_op op_id_sample_op get_undo_data)

subsection \<open>Undo of a CLEAR-CANVAS operation\<close>

lemma distinct_nth_not_in_rest:
  "distinct xs \<Longrightarrow> i < length xs \<Longrightarrow> xs ! i \<notin> set (take i xs @ drop (Suc i) xs)"
proof -
  assume d: "distinct xs" and i: "i < length xs"
  have "xs = take i xs @ xs ! i # drop (Suc i) xs" using i by (rule id_take_nth_drop)
  then have "distinct (take i xs @ xs ! i # drop (Suc i) xs)" using d by simp
  then show ?thesis by auto
qed

lemma distinct_nth_not_in_drop:
  "distinct xs \<Longrightarrow> i < k \<Longrightarrow> i < length xs \<Longrightarrow> xs ! i \<notin> set (drop k xs)"
proof -
  assume d: "distinct xs" and ik: "i < k" and i: "i < length xs"
  have "distinct (take k xs @ drop k xs)" using d by simp
  then have disj: "set (take k xs) \<inter> set (drop k xs) = {}" by (simp only: distinct_append)
  have "xs ! i = take k xs ! i" using ik by simp
  moreover have "i < length (take k xs)" using ik i by simp
  ultimately have "xs ! i \<in> set (take k xs)" by (metis nth_mem)
  then show ?thesis using disj by blast
qed

lemma distinct_same_id:
  assumes d: "distinct (ids_of h)" and i: "i < length h" and m: "op \<in> set h"
    and e: "get (h ! i) ''id'' = get op ''id''"
  shows "h ! i = op"
proof -
  obtain j where j: "j < length h" and hj: "h ! j = op" using m by (auto simp: in_set_conv_nth)
  have "ids_of h ! i = ids_of h ! j" using i j e hj by (simp add: ids_of_def)
  moreover have "i < length (ids_of h)" "j < length (ids_of h)" using i j by (simp_all add: ids_of_def)
  ultimately have "i = j" using d by (simp add: nth_eq_iff_index_eq)
  then show ?thesis using hj by simp
qed

text \<open>
  C4, as stated, fails: the log accepts a CLEAR_CANVAS operation with id \<^verbatim>\<open>c1\<close>, and the
  undo request for \<^verbatim>\<open>c1\<close> then returns success and removes it from the history.
\<close>

theorem undo_of_clear_canvas_counterexample:
  "drawingHistory (run (new_DrawingState 0) [Append clear_op ''uuid-1'' 10])
     = [enrich clear_op ''uuid-1'' 10]
   \<and> get (enrich clear_op ''uuid-1'' 10) ''type'' = JStr ''CLEAR_CANVAS''
   \<and> get (enrich clear_op ''uuid-1'' 10) ''id'' = get (undo_data ''c1'') ''operationId''
   \<and> fst (recordUndo (undo_data ''c1'') 12
            (run (new_DrawingState 0) [Append clear_op ''uuid-1'' 10]))
   \<and> drawingHistory (snd (recordUndo (undo_data ''c1'') 12
            (run (new_DrawingState 0) [Append clear_op ''uuid-1'' 10]))) = []"
proof -
  have v: "validateOperation clear_op"
    by (simp add: validateOperation_def clear_op_def has_field_def get_def
        requiredBaseFields_def validTypes_def)
  have h: "drawingHistory (run (new_DrawingState 0) [Append clear_op ''uuid-1'' 10])
           = [enrich clear_op ''uuid-1'' 10]"
    using v by (simp add: run_def addOperation_valid new_DrawingState_def)
  have t: "get (enrich clear_op ''uuid-1'' 10) ''type'' = JStr ''CLEAR_CANVAS''"
    by (simp add: enrich_def clear_op_def get_def)
  have i: "get (enrich clear_op ''uuid-1'' 10) ''id'' = get (undo_data ''c1'') ''operationId''"
    unfolding get_enrich_id get_undo_data
    by (simp add: op_id_def js_or_def clear_op_def get_def)
  have idx: "findIndex (\<lambda>op. get op ''id'' = get (undo_data ''c1'') ''operationId'')
               (drawingHistory (run (new_DrawingState 0) [Append clear_op ''uuid-1'' 10])) = Some 0"
    by (simp add: h i)
  show ?thesis using h t i recordUndo_hit [OF idx, of 12] by simp
qed

lemma recordUndo_audit:
  "findIndex (\<lambda>op. get op ''id'' = get undoOp ''operationId'') (drawingHistory s) = Some i \<Longrightarrow>
   operationHistory (snd (recordUndo undoOp now s))
   = operationHistory s @
       [([''type'' \<mapsto> JStr ''UNDO''] ++ undoOp)
          (''removedOperationId'' \<mapsto> get undoOp ''operationId'', ''timestamp'' \<mapsto> JNum now)]"
  by (simp add: recordUndo_def Let_def)

text \<open>
  C4, amended. An undo request that names the id of a CLEAR_CANVAS operation in the history is
  not refused; it is handled as for any other operation: the request returns success, the first
  operation of the history with that id is removed while the others keep their order, and the
  removed operation is pushed on the redo buffer. One entry is appended to the audit trail, the
  earlier entries staying as they are: the fields of the request, with the id as
  \<^verbatim>\<open>removedOperationId\<close> and the time as \<^verbatim>\<open>timestamp\<close>, and with the type UNDO unless
  the request has a type of its own, which it then keeps. When the ids in the history are
  pairwise different, the removed operation is that CLEAR_CANVAS operation.
\<close>

theorem undo_of_clear_canvas_removes:
  assumes m: "op \<in> set (drawingHistory s)"
    and ty: "get op ''type'' = JStr ''CLEAR_CANVAS''"
    and tgt: "get undoOp ''operationId'' = get op ''id''"
  shows "\<exists>i. findIndex (\<lambda>op. get op ''id'' = get undoOp ''operationId'') (drawingHistory s) = Some i
           \<and> fst (recordUndo undoOp now s)
           \<and> drawingHistory (snd (recordUndo undoOp now s))
               = take i (drawingHistory s) @ drop (Suc i) (drawingHistory s)
           \<and> redoStack (snd (recordUndo undoOp now s)) = redoStack s @ [drawingHistory s ! i]
           \<and> operationHistory (snd (recordUndo undoOp now s))
               = operationHistory s @
                   [([''type'' \<mapsto> JStr ''UNDO''] ++ undoOp)
                      (''removedOperationId'' \<mapsto> get op ''id'', ''timestamp'' \<mapsto> JNum now)]
           \<and> get (last (operationHistory (snd (recordUndo undoOp now s)))) ''type''
               = (case undoOp ''type'' of None \<Rightarrow> JStr ''UNDO'' | Some t \<Rightarrow> t)
           \<and> (distinct (ids_of (drawingHistory s)) \<longrightarrow> drawingHistory s ! i = op)"
proof -
  obtain i where idx: "findIndex (\<lambda>op. get op ''id'' = get undoOp ''operationId'') (drawingHistory s) = Some i"
    using findIndex_Some_ex [of op "drawingHistory s" "\<lambda>op. get op ''id'' = get undoOp ''operationId''"] m tgt
    by auto
  have il: "i < length (drawingHistory s)"
    and ie: "get (drawingHistory s ! i) ''id'' = get op ''id''"
    using findIndex_Some_less [OF idx] tgt by simp_all
  have a: "operationHistory (snd (recordUndo undoOp now s))
               = operationHistory s @
                   [([''type'' \<mapsto> JStr ''UNDO''] ++ undoOp)
                      (''removedOperationId'' \<mapsto> get op ''id'', ''timestamp'' \<mapsto> JNum now)]"
    using recordUndo_audit [OF idx, of now] tgt by simp
  have t: "get (last (operationHistory (snd (recordUndo undoOp now s)))) ''type''
               = (case undoOp ''type'' of None \<Rightarrow> JStr ''UNDO'' | Some t \<Rightarrow> t)"
    unfolding a by (simp add: get_def map_add_def split: option.splits)
  have d: "distinct (ids_of (drawingHistory s)) \<longrightarrow> drawingHistory s ! i = op"
    using distinct_same_id [OF _ il m ie] by blast
  show ?thesis using idx recordUndo_hit [OF idx, of now] a t d by blast
qed

theorem undo_of_clear_canvas_removes_witness:
  "enrich clear_op ''uuid-1'' 10
     \<in> set (drawingHistory (run (new_DrawingState 0) [Append clear_op ''uuid-1'' 10]))
   \<and> get (enrich clear_op ''uuid-1'' 10) ''type'' = JStr ''CLEAR_CANVAS''
   \<and> get (undo_data ''c1'') ''operationId'' = get (enrich clear_op ''uuid-1'' 10) ''id''
   \<and> fst (recordUndo (undo_data ''c1'') 12
            (run (new_DrawingState 0) [Append clear_op ''uuid-1'' 10]))
   \<and> drawingHistory (snd (recordUndo (undo_data ''c1'') 12
            (run (new_DrawingState 0) [Append clear_op ''uuid-1'' 10]))) = []
   \<and> redoStack (snd (recordUndo (undo_data ''c1'') 12
            (run (new_DrawingState 0) [Append clear_op ''uuid-1'' 10])))
      = [enrich clear_op ''uuid-1'' 10]
   \<and> operationHistory (snd (recordUndo (undo_data ''c1'') 12
            (run (new_DrawingState 0) [Append clear_op ''uuid-1'' 10])))
      = [[''type'' \<mapsto> JStr ''UNDO'', ''userId'' \<mapsto> JStr ''user-1'',
          ''operationId'' \<mapsto> JStr ''c1'', ''timestamp'' \<mapsto> JNum 12,
          ''removedOperationId'' \<mapsto> JStr ''c1'']]"
proof -
  let ?s = "run (new_DrawingState 0) [Append clear_op ''uuid-1'' 10]"
  have v: "validateOperation clear_op"
    by (simp add: validateOperation_def clear_op_def has_field_def get_def
        requiredBaseFields_def validTypes_def)
  have h: "drawingHistory ?s = [enrich clear_op ''uuid-1'' 10]" and r: "redoStack ?s = []"
    and o: "operationHistory ?s = []"
    using v by (simp_all add: run_def addOperation_valid new_DrawingState_def)
  have m: "enrich clear_op ''uuid-1'' 10 \<in> set (drawingHistory ?s)" by (simp add: h)
  have t: "get (enrich clear_op ''uuid-1'' 10) ''type'' = JStr ''CLEAR_CANVAS''"
    by (simp add: enrich_def clear_op_def get_def)
  have i: "get (undo_data ''c1'') ''operationId'' = get (enrich clear_op ''uuid-1'' 10) ''id''"
    unfolding get_enrich_id get_undo_data
    by (simp add: op_id_def js_or_def clear_op_def get_def)
  have i2: "get (enrich clear_op ''uuid-1'' 10) ''id'' = JStr ''c1''"
    unfolding get_enrich_id by (simp add: op_id_def js_or_def clear_op_def get_def)
  have e: "([''type'' \<mapsto> JStr ''UNDO''] ++ undo_data ''c1'')
             (''removedOperationId'' \<mapsto> JStr ''c1'', ''timestamp'' \<mapsto> JNum 12)
           = [''type'' \<mapsto> JStr ''UNDO'', ''userId'' \<mapsto> JStr ''user-1'',
              ''operationId'' \<mapsto> JStr ''c1'', ''timestamp'' \<mapsto> JNum 12,
              ''removedOperationId'' \<mapsto> JStr ''c1'']"
    by (rule ext) (simp add: map_add_def undo_data_def)
  obtain j where j: "findIndex (\<lambda>op. get op ''id'' = get (undo_data ''c1'') ''operationId'')
                        (drawingHistory ?s) = Some j"
      and u: "fst (recordUndo (undo_data ''c1'') 12 ?s)"
      and hs: "drawingHistory (snd (recordUndo (undo_data ''c1'') 12 ?s))
               = take j (drawingHistory ?s) @ drop (Suc j) (drawingHistory ?s)"
      and rs: "redoStack (snd (recordUndo (undo_data ''c1'') 12 ?s))
               = redoStack ?s @ [drawingHistory ?s ! j]"
      and os: "operationHistory (snd (recordUndo (undo_data ''c1'') 12 ?s))
               = operationHistory ?s @
                   [([''type'' \<mapsto> JStr ''UNDO''] ++ undo_data ''c1'')
                      (''removedOperationId'' \<mapsto> get (enrich clear_op ''uuid-1'' 10) ''id'',
                       ''timestamp'' \<mapsto> JNum 12)]"
    using undo_of_clear_canvas_removes [OF m t i, of 12] by blast
  have "j < length (drawingHistory ?s)" using findIndex_Some_less [OF j] by simp
  then have j0: "j = 0" by (simp add: h)
  have os': "operationHistory (snd (recordUndo (undo_data ''c1'') 12 ?s))
      = [[''type'' \<mapsto> JStr ''UNDO'', ''userId'' \<mapsto> JStr ''user-1'',
          ''operationId'' \<mapsto> JStr ''c1'', ''timestamp'' \<mapsto> JNum 12,
          ''removedOperationId'' \<mapsto> JStr ''c1'']]"
    unfolding os o i2 e by simp
  show ?thesis using m t i u hs rs os' j0 by (simp add: h r)
qed

subsection \<open>The capacity bound\<close>

lemma within_capacity_new: "within_capacity (new_DrawingState t0)"
  by (simp add: within_capacity_def new_DrawingState_def)

lemma within_capacity_addOperation:
  "within_capacity s \<Longrightarrow> within_capacity (snd (addOperation operation uuid now s))"
  by (cases "validateOperation operation")
     (auto simp: within_capacity_def addOperation_valid addOperation_invalid)

lemma within_capacity_recordUndo:
  assumes "within_capacity s" shows "within_capacity (snd (recordUndo undoOp now s))"
proof (cases "findIndex (\<lambda>op. get op ''id'' = get undoOp ''operationId'') (drawingHistory s)")
  case None
  then show ?thesis using assms by (simp add: recordUndo_miss)
next
  case (Some i)
  have "i < length (drawingHistory s)" using findIndex_Some_less [OF Some] by simp
  then have "length (take i (drawingHistory s) @ drop (Suc i) (drawingHistory s))
               + length (redoStack s @ [drawingHistory s ! i])
             = length (drawingHistory s) + length (redoStack s)"
    by simp
  then show ?thesis using assms recordUndo_hit [OF Some, of now]
    by (simp only: within_capacity_def)
qed

lemma within_capacity_recordRedo:
  assumes "within_capacity s" shows "within_capacity (snd (recordRedo redoOp now s))"
proof (cases "redoStack s = []")
  case True
  then show ?thesis using assms by (simp add: recordRedo_empty)
next
  case False
  then have "length (drawingHistory s @ [last (redoStack s)]) + length (butlast (redoStack s))
             = length (drawingHistory s) + length (redoStack s)"
    by (cases "redoStack s" rule: rev_cases) simp_all
  then show ?thesis using assms recordRedo_nonempty [OF False, of redoOp now]
    by (simp only: within_capacity_def)
qed

lemma within_capacity_clear: "within_capacity s \<Longrightarrow> within_capacity (clear s)"
  by (simp add: within_capacity_def clear_def)

lemma within_capacity_step: "within_capacity s \<Longrightarrow> within_capacity (step s c)"
  by (cases c)
     (simp_all add: within_capacity_addOperation within_capacity_recordUndo
        within_capacity_recordRedo within_capacity_clear)

lemma within_capacity_run: "within_capacity s \<Longrightarrow> within_capacity (run s cmds)"
  by (induction cmds arbitrary: s) (simp_all add: run_Nil run_Cons within_capacity_step)

lemma maxHistorySize_step: "maxHistorySize (step s c) = maxHistorySize s"
proof (cases c)
  case (Append operation uuid now)
  then show ?thesis by (cases "validateOperation operation") (simp_all add: addOperation_valid addOperation_invalid)
next
  case (Undo undoOp now)
  then show ?thesis by (simp add: recordUndo_def Let_def split: option.splits)
next
  case (Redo redoOp now)
  then show ?thesis by (simp add: recordRedo_def Let_def)
next
  case Clear
  then show ?thesis by (simp add: clear_def)
qed

lemma maxHistorySize_run: "maxHistorySize (run s cmds) = maxHistorySize s"
  by (induction cmds arbitrary: s) (simp_all add: run_Nil run_Cons maxHistorySize_step)

lemma history_appends:
  "list_all (\<lambda>x. validateOperation (fst x)) ops \<Longrightarrow>
   drawingHistory (run (new_DrawingState t0) (appends ops))
     = drop (length ops - 500) (enriched ops)"
proof (induction ops rule: rev_induct)
  case Nil
  then show ?case by (simp add: appends_def enriched_def run_Nil new_DrawingState_def)
next
  case (snoc x ops)
  obtain operation uuid now where x: "x = (operation, uuid, now)" by (cases x)
  let ?s = "run (new_DrawingState t0) (appends ops)"
  have v: "validateOperation operation" and vs: "list_all (\<lambda>x. validateOperation (fst x)) ops"
    using snoc.prems by (simp_all add: x)
  have ih: "drawingHistory ?s = drop (length ops - 500) (enriched ops)"
    using snoc.IH [OF vs] .
  have m: "maxHistorySize ?s = 500"
    by (simp add: maxHistorySize_run new_DrawingState_def)
  have len: "length (enriched ops) = length ops" by (simp add: enriched_def)
  have st: "run (new_DrawingState t0) (appends (ops @ [x]))
            = snd (addOperation operation uuid now ?s)"
    by (simp add: appends_def run_snoc x)
  have e: "enriched (ops @ [x]) = enriched ops @ [enrich operation uuid now]"
    by (simp add: enriched_def x)
  show ?case
  proof (cases "length ops < 500")
    case True
    then show ?thesis using v by (simp add: st e addOperation_valid ih m len)
  next
    case False
    then have "500 \<le> length ops" by simp
    then have d: "Suc (length ops) - 500 = Suc (length ops - 500)"
      and d': "length ops - 499 = Suc (length ops - 500)" by simp_all
    have "tl (drop (length ops - 500) (enriched ops) @ [enrich operation uuid now])
          = drop (Suc (length ops - 500)) (enriched ops @ [enrich operation uuid now])"
      using False by (simp add: len drop_Suc tl_drop)
    then show ?thesis using v False by (simp add: st e addOperation_valid ih m len d d')
  qed
qed

text \<open>
  C7. In every state reached from the constructor's empty log by any sequence of appends, undos,
  redos and clears, the history holds at most 500 operations (\<open>maxHistorySize\<close>). Appending
  501 valid operations to the empty log leaves exactly 500, namely all but the first, in the
  order of appending.
\<close>

theorem capacity_bound:
  "(\<forall>t0 cmds. length (drawingHistory (run (new_DrawingState t0) cmds)) \<le> 500)
   \<and> (\<forall>t0 ops. list_all (\<lambda>x. validateOperation (fst x)) ops
          \<and> length ops = 500 + 1
        \<longrightarrow> maxHistorySize (run (new_DrawingState t0) (appends ops)) = 500
          \<and> length (drawingHistory (run (new_DrawingState t0) (appends ops))) = 500
          \<and> drawingHistory (run (new_DrawingState t0) (appends ops)) = tl (enriched ops))"
proof (intro conjI allI impI)
  fix t0 cmds
  have "within_capacity (run (new_DrawingState t0) cmds)"
    by (rule within_capacity_run [OF within_capacity_new])
  then show "length (drawingHistory (run (new_DrawingState t0) cmds)) \<le> 500"
    by (simp add: within_capacity_def)
next
  fix t0 and ops :: "(jsobj \<times> string \<times> int) list"
  assume a: "list_all (\<lambda>x. validateOperation (fst x)) ops \<and> length ops = 500 + 1"
  show "maxHistorySize (run (new_DrawingState t0) (appends ops)) = 500"
    by (simp add: maxHistorySize_run new_DrawingState_def)
  have h: "drawingHistory (run (new_DrawingState t0) (appends ops)) = drop 1 (enriched ops)"
    using history_appends [of ops t0] a by simp
  show "drawingHistory (run (new_DrawingState t0) (appends ops)) = tl (enriched ops)"
    by (simp add: h drop_Suc)
  show "length (drawingHistory (run (new_DrawingState t0) (appends ops))) = 500"
    using a by (simp add: h enriched_def)
qed

theorem capacity_bound_witness:
  "length (numbered_ops 501) = 500 + 1
   \<and> length (drawingHistory (run (new_DrawingState 0) (appends (numbered_ops 501)))) = 500
   \<and> drawingHistory (run (new_DrawingState 0) (appends (numbered_ops 501)))
       = tl (enriched (numbered_ops 501))
   \<and> length (drawingHistory (run (new_DrawingState 0)
        [Append (sample_op ''a'') ''uuid-1'' 10, Undo (undo_data ''a'') 11, Redo redo_data 12]))
       \<le> 500"
proof -
  have a: "list_all (\<lambda>x. validateOperation (fst x)) (numbered_ops 501)
           \<and> length (numbered_ops 501) = 500 + 1"
    by (simp add: numbered_ops_valid length_numbered_ops)
  have b: "maxHistorySize (run (new_DrawingState 0) (appends (numbered_ops 501))) = 500
     \<and> length (drawingHistory (run (new_DrawingState 0) (appends (numbered_ops 501)))) = 500
     \<and> drawingHistory (run (new_DrawingState 0) (appends (numbered_ops 501)))
         = tl (enriched (numbered_ops 501))"
    using capacity_bound a by blast
  have c: "length (drawingHistory (run (new_DrawingState 0)
        [Append (sample_op ''a'') ''uuid-1'' 10, Undo (undo_data ''a'') 11, Redo redo_data 12]))
       \<le> 500"
    using capacity_bound by blast
  show ?thesis using a b c by blast
qed

subsection \<open>Operations that have left the history\<close>

lemma absent_addOperation:
  "absent x s \<Longrightarrow> op_id operation uuid \<noteq> x \<Longrightarrow> absent x (snd (addOperation operation uuid now s))"
proof (cases "validateOperation operation")
  case False
  assume "absent x s" then show ?thesis using False by (simp add: addOperation_invalid)
next
  case True
  assume a: "absent x s" and n: "op_id operation uuid \<noteq> x"
  have "set (tl (drawingHistory s @ [enrich operation uuid now]))
        \<subseteq> set (drawingHistory s @ [enrich operation uuid now])"
    by (auto dest: list.set_sel(2) [rotated])
  then have "set (ids_of (tl (drawingHistory s @ [enrich operation uuid now])))
        \<subseteq> set (ids_of (drawingHistory s @ [enrich operation uuid now]))"
    by (auto simp: ids_of_def)
  then show ?thesis using a n True
    by (auto simp: absent_def addOperation_valid ids_of_def get_enrich_id)
qed

lemma absent_recordUndo:
  assumes a: "absent x s" shows "absent x (snd (recordUndo undoOp now s))"
proof (cases "findIndex (\<lambda>op. get op ''id'' = get undoOp ''operationId'') (drawingHistory s)")
  case None
  then show ?thesis using a by (simp add: recordUndo_miss)
next
  case (Some i)
  have il: "i < length (drawingHistory s)" using findIndex_Some_less [OF Some] by simp
  have "set (take i (drawingHistory s) @ drop (Suc i) (drawingHistory s)) \<subseteq> set (drawingHistory s)"
    by (auto dest: in_set_takeD in_set_dropD)
  moreover have "drawingHistory s ! i \<in> set (drawingHistory s)" using il by simp
  ultimately show ?thesis using a recordUndo_hit [OF Some, of now]
    by (auto simp: absent_def ids_of_def)
qed

lemma absent_recordRedo:
  assumes a: "absent x s" shows "absent x (snd (recordRedo redoOp now s))"
proof (cases "redoStack s = []")
  case True
  then show ?thesis using a by (simp add: recordRedo_empty)
next
  case False
  have "last (redoStack s) \<in> set (redoStack s)" using False by simp
  moreover have "set (butlast (redoStack s)) \<subseteq> set (redoStack s)"
    by (auto dest: in_set_butlastD)
  ultimately show ?thesis using a recordRedo_nonempty [OF False, of redoOp now]
    by (auto simp: absent_def ids_of_def)
qed

lemma absent_clear: "absent x (clear s)"
  by (simp add: absent_def clear_def ids_of_def)

lemma absent_run:
  "absent x s \<Longrightarrow> Some x \<notin> set (map appended_id cmds) \<Longrightarrow> absent x (run s cmds)"
proof (induction cmds arbitrary: s)
  case Nil
  then show ?case by (simp add: run_Nil)
next
  case (Cons c cmds)
  have "absent x (step s c)"
  proof (cases c)
    case (Append operation uuid now)
    then show ?thesis using Cons.prems by (auto simp: absent_addOperation)
  next
    case (Undo undoOp now)
    then show ?thesis using Cons.prems by (simp add: absent_recordUndo)
  next
    case (Redo redoOp now)
    then show ?thesis using Cons.prems by (simp add: absent_recordRedo)
  next
    case Clear
    then show ?thesis by (simp add: absent_clear)
  qed
  moreover have "Some x \<notin> set (map appended_id cmds)"
    using Cons.prems(2) by simp
  ultimately have "absent x (run (step s c) cmds)" by (rule Cons.IH)
  then show ?case by (simp add: run_Cons)
qed

lemma redoStack_appends:
  "redoStack (run (new_DrawingState t0) (appends ops)) = []"
proof (induction ops rule: rev_induct)
  case Nil
  then show ?case by (simp add: appends_def run_Nil new_DrawingState_def)
next
  case (snoc x ops)
  obtain operation uuid now where x: "x = (operation, uuid, now)" by (cases x)
  show ?case using snoc.IH
    by (cases "validateOperation operation")
       (simp_all add: appends_def run_snoc x addOperation_valid addOperation_invalid)
qed

lemma ids_of_enriched: "ids_of (enriched ops) = appended_ids ops"
  by (simp add: ids_of_def enriched_def appended_ids_def get_enrich_id split_def)

lemma absent_imp_undo_fails: "absent x s \<Longrightarrow> get undoOp ''operationId'' = x \<Longrightarrow> recordUndo undoOp now s = (False, s)"
  by (rule recordUndo_miss_iff) (force simp: absent_def ids_of_def)

lemma evicted_absent:
  assumes v: "list_all (\<lambda>x. validateOperation (fst x)) ops"
    and d: "distinct (appended_ids ops)"
    and i: "i < length ops - 500"
  shows "absent (appended_ids ops ! i) (run (new_DrawingState t0) (appends ops))"
proof -
  have il: "i < length (appended_ids ops)" using i by (simp add: appended_ids_def)
  have "appended_ids ops ! i \<notin> set (drop (length ops - 500) (appended_ids ops))"
    using distinct_nth_not_in_drop [OF d i il] .
  moreover have "ids_of (drop (length ops - 500) (enriched ops))
                 = drop (length ops - 500) (appended_ids ops)"
    by (simp add: ids_of_enriched [symmetric] ids_of_def drop_map)
  ultimately show ?thesis
    by (simp add: absent_def history_appends [OF v] redoStack_appends ids_of_def)
qed

lemma get_enrich_addedAt: "get (enrich operation uuid now) ''addedAt'' = JNum now"
  by (simp add: enrich_def get_def)

lemma enriched_numbered_ops:
  "enriched (numbered_ops n) = map (\<lambda>k. enrich (numbered_op k) ''uuid'' (int k)) [0..<n]"
  by (simp add: enriched_def numbered_ops_def comp_def)

lemma recordUndo_success_iff:
  "fst (recordUndo undoOp now s) \<longleftrightarrow> get undoOp ''operationId'' \<in> set (ids_of (drawingHistory s))"
proof
  assume f: "fst (recordUndo undoOp now s)"
  show "get undoOp ''operationId'' \<in> set (ids_of (drawingHistory s))"
  proof (rule ccontr)
    assume "get undoOp ''operationId'' \<notin> set (ids_of (drawingHistory s))"
    then have "recordUndo undoOp now s = (False, s)" by (rule recordUndo_absent)
    then show False using f by simp
  qed
next
  assume "get undoOp ''operationId'' \<in> set (ids_of (drawingHistory s))"
  then show "fst (recordUndo undoOp now s)" by (rule recordUndo_present)
qed

lemma ids_of_tl: "ids_of (tl h) = tl (ids_of h)"
  by (simp add: ids_of_def map_tl)

lemma out_of_history_step:
  assumes x: "x \<notin> set (ids_of (drawingHistory s))"
    and r: "\<not> is_redo c" and a: "appended_id c \<noteq> Some x"
  shows "x \<notin> set (ids_of (drawingHistory (step s c)))"
proof (cases c)
  case (Append operation uuid now)
  show ?thesis
  proof (cases "validateOperation operation")
    case False
    then show ?thesis using x Append by (simp add: addOperation_invalid)
  next
    case True
    have n: "op_id operation uuid \<noteq> x" using a Append by simp
    have "set (tl (ids_of (drawingHistory s @ [enrich operation uuid now])))
          \<subseteq> set (ids_of (drawingHistory s @ [enrich operation uuid now]))"
      by (cases "ids_of (drawingHistory s @ [enrich operation uuid now])") auto
    moreover have "x \<notin> set (ids_of (drawingHistory s @ [enrich operation uuid now]))"
      using x n by (auto simp: ids_of_def get_enrich_id)
    ultimately have "x \<notin> set (ids_of (tl (drawingHistory s @ [enrich operation uuid now])))"
      unfolding ids_of_tl by blast
    then show ?thesis using x n True Append
      by (auto simp: addOperation_valid ids_of_def get_enrich_id)
  qed
next
  case (Undo undoOp now)
  show ?thesis
  proof (cases "findIndex (\<lambda>op. get op ''id'' = get undoOp ''operationId'') (drawingHistory s)")
    case None
    then show ?thesis using x Undo by (simp add: recordUndo_miss)
  next
    case (Some i)
    have "set (take i (drawingHistory s) @ drop (Suc i) (drawingHistory s)) \<subseteq> set (drawingHistory s)"
      by (auto dest: in_set_takeD in_set_dropD)
    then show ?thesis using x Undo recordUndo_hit [OF Some, of now]
      by (auto simp: ids_of_def)
  qed
next
  case (Redo redoOp now)
  then show ?thesis using r by simp
next
  case Clear
  then show ?thesis by (simp add: clear_def ids_of_def)
qed

lemma out_of_history_run:
  "x \<notin> set (ids_of (drawingHistory s)) \<Longrightarrow> \<not> list_ex is_redo cmds \<Longrightarrow>
   Some x \<notin> set (map appended_id cmds) \<Longrightarrow>
   x \<notin> set (ids_of (drawingHistory (run s cmds)))"
proof (induction cmds arbitrary: s)
  case Nil
  then show ?case by (simp add: run_Nil)
next
  case (Cons c cmds)
  have "x \<notin> set (ids_of (drawingHistory (step s c)))"
    by (intro out_of_history_step) (use Cons.prems in auto)
  moreover have "\<not> list_ex is_redo cmds" "Some x \<notin> set (map appended_id cmds)"
    using Cons.prems by simp_all
  ultimately have "x \<notin> set (ids_of (drawingHistory (run (step s c) cmds)))"
    by (rule Cons.IH)
  then show ?case by (simp add: run_Cons)
qed

lemma eviction_step:
  assumes d: "distinct (ids_of (drawingHistory s))"
    and ne: "drawingHistory s \<noteq> []"
    and full: "length (drawingHistory s) = maxHistorySize s"
    and v: "validateOperation operation"
    and n: "op_id operation uuid \<noteq> get (hd (drawingHistory s)) ''id''"
  shows "hd (drawingHistory s) \<notin> set (drawingHistory (snd (addOperation operation uuid t s)))
       \<and> absent (get (hd (drawingHistory s)) ''id'') (snd (addOperation operation uuid t s))"
proof -
  obtain o1 rest where h: "drawingHistory s = o1 # rest" using ne by (cases "drawingHistory s") auto
  have h': "drawingHistory (snd (addOperation operation uuid t s)) = rest @ [enrich operation uuid t]"
    and r': "redoStack (snd (addOperation operation uuid t s)) = []"
    using v full by (simp_all add: addOperation_valid h)
  have x: "get o1 ''id'' \<notin> set (ids_of rest)" using d by (simp add: h ids_of_def)
  have e: "get o1 ''id'' \<noteq> get (enrich operation uuid t) ''id''"
    using n by (simp add: h get_enrich_id)
  have "get o1 ''id'' \<notin> set (ids_of (rest @ [enrich operation uuid t]))"
    using x e by (simp add: ids_of_def)
  then have ab: "absent (get o1 ''id'') (snd (addOperation operation uuid t s))"
    by (simp add: absent_def h' r' ids_of_def)
  have "o1 \<notin> set (rest @ [enrich operation uuid t])"
    using x e by (auto simp: ids_of_def)
  then show ?thesis using ab by (simp add: h h')
qed

lemma history_numbered_ops:
  "n \<le> 500 \<Longrightarrow> drawingHistory (run (new_DrawingState 0) (appends (numbered_ops n)))
     = enriched (numbered_ops n)"
  by (simp add: history_appends [OF numbered_ops_valid] length_numbered_ops)

lemma ids_numbered_ops:
  "n \<le> 500 \<Longrightarrow> ids_of (drawingHistory (run (new_DrawingState 0) (appends (numbered_ops n))))
     = appended_ids (numbered_ops n)"
  by (simp add: history_numbered_ops ids_of_enriched)

lemma hd_enriched_numbered_ops:
  "0 < n \<Longrightarrow> hd (enriched (numbered_ops n)) = enrich (numbered_op 0) ''uuid'' 0"
  by (simp add: enriched_numbered_ops hd_map)

lemma reused_id_ops_valid: "list_all (\<lambda>x. validateOperation (fst x)) reused_id_ops"
  using numbered_ops_valid [of 500]
  by (simp add: reused_id_ops_def validateOperation_numbered_op)

lemma history_reused_id_ops:
  "drawingHistory (run (new_DrawingState 0) (appends reused_id_ops))
   = map (\<lambda>k. enrich (numbered_op k) ''uuid'' (int k)) [1..<500]
     @ [enrich (numbered_op 0) ''uuid'' 500]"
proof -
  have l: "length reused_id_ops = 501" by (simp add: reused_id_ops_def length_numbered_ops)
  have u: "[0..<500] = 0 # [1..<500]" by (simp add: upt_conv_Cons)
  have "enriched reused_id_ops
        = map (\<lambda>k. enrich (numbered_op k) ''uuid'' (int k)) [0..<500]
          @ [enrich (numbered_op 0) ''uuid'' 500]"
    using enriched_numbered_ops [of 500] by (simp add: reused_id_ops_def enriched_def)
  then have "drop 1 (enriched reused_id_ops)
        = map (\<lambda>k. enrich (numbered_op k) ''uuid'' (int k)) [1..<500]
          @ [enrich (numbered_op 0) ''uuid'' 500]"
    by (simp add: u)
  then show ?thesis using history_appends [OF reused_id_ops_valid, of 0] by (simp add: l)
qed

lemma history_twice_same_id:
  "drawingHistory (run (new_DrawingState 0) (appends twice_same_id))
   = [enrich (numbered_op 0) ''uuid'' 0, enrich (numbered_op 0) ''uuid'' 1]"
  by (simp add: twice_same_id_def appends_def run_def addOperation_valid
      validateOperation_numbered_op new_DrawingState_def)

text \<open>
  C10, as stated, fails: the log accepts an operation whose id is already in use. After 501
  appends of which the last reuses the id of the first, the first operation has been evicted,
  and the undo request for its id returns success and changes the history (it removes the last
  operation). After two appends with one id, the undo request for that id succeeds twice.
\<close>

theorem undo_after_eviction_counterexample:
  "length reused_id_ops = 501
   \<and> hd (enriched reused_id_ops) = enrich (numbered_op 0) ''uuid'' 0
   \<and> enrich (numbered_op 0) ''uuid'' 0
        \<notin> set (drawingHistory (run (new_DrawingState 0) (appends reused_id_ops)))
   \<and> get (undo_numbered 0) ''operationId'' = get (enrich (numbered_op 0) ''uuid'' 0) ''id''
   \<and> fst (recordUndo (undo_numbered 0) 600 (run (new_DrawingState 0) (appends reused_id_ops)))
   \<and> drawingHistory (snd (recordUndo (undo_numbered 0) 600
                            (run (new_DrawingState 0) (appends reused_id_ops))))
        \<noteq> drawingHistory (run (new_DrawingState 0) (appends reused_id_ops))
   \<and> fst (recordUndo (undo_numbered 0) 10 (run (new_DrawingState 0) (appends twice_same_id)))
   \<and> fst (recordUndo (undo_numbered 0) 11
            (snd (recordUndo (undo_numbered 0) 10
                    (run (new_DrawingState 0) (appends twice_same_id)))))"
proof -
  let ?s = "run (new_DrawingState 0) (appends reused_id_ops)"
  have l: "length reused_id_ops = 501" by (simp add: reused_id_ops_def length_numbered_ops)
  have hd: "hd (enriched reused_id_ops) = enrich (numbered_op 0) ''uuid'' 0"
    using hd_enriched_numbered_ops [of 500]
    by (simp add: reused_id_ops_def enriched_def numbered_ops_def hd_append hd_map)
  have "\<forall>op \<in> set (drawingHistory ?s). get op ''addedAt'' \<noteq> JNum 0"
    by (auto simp: history_reused_id_ops get_enrich_addedAt)
  then have out: "enrich (numbered_op 0) ''uuid'' 0 \<notin> set (drawingHistory ?s)"
    using get_enrich_addedAt [of "numbered_op 0" "''uuid''" 0] by blast
  have g: "get (undo_numbered 0) ''operationId'' = JNum 1"
    by (simp add: undo_numbered_def get_def)
  have i: "get (enrich (numbered_op 0) ''uuid'' 0) ''id'' = JNum 1"
    by (simp add: get_enrich_id op_id_numbered_op)
  have "JNum 1 \<in> set (ids_of (drawingHistory ?s))"
    by (simp add: history_reused_id_ops ids_of_def get_enrich_id op_id_numbered_op)
  then have u: "fst (recordUndo (undo_numbered 0) 600 ?s)"
    by (intro recordUndo_present) (simp add: g)
  obtain j where j: "findIndex (\<lambda>op. get op ''id'' = get (undo_numbered 0) ''operationId'')
                       (drawingHistory ?s) = Some j"
    using u by (cases "findIndex (\<lambda>op. get op ''id'' = get (undo_numbered 0) ''operationId'')
                       (drawingHistory ?s)") (simp_all add: recordUndo_miss)
  have jl: "j < length (drawingHistory ?s)" using findIndex_Some_less [OF j] by simp
  have "length (drawingHistory (snd (recordUndo (undo_numbered 0) 600 ?s)))
        < length (drawingHistory ?s)"
    using recordUndo_hit [OF j, of 600] jl by simp
  then have ch: "drawingHistory (snd (recordUndo (undo_numbered 0) 600 ?s)) \<noteq> drawingHistory ?s"
    by auto
  let ?t = "run (new_DrawingState 0) (appends twice_same_id)"
  have t1: "fst (recordUndo (undo_numbered 0) 10 ?t)"
    by (intro recordUndo_present)
       (simp add: g history_twice_same_id ids_of_def get_enrich_id op_id_numbered_op)
  have k: "findIndex (\<lambda>op. get op ''id'' = get (undo_numbered 0) ''operationId'')
             (drawingHistory ?t) = Some 0"
    by (simp add: g history_twice_same_id get_enrich_id op_id_numbered_op)
  have "drawingHistory (snd (recordUndo (undo_numbered 0) 10 ?t)) = [enrich (numbered_op 0) ''uuid'' 1]"
    using recordUndo_hit [OF k, of 10] by (simp add: history_twice_same_id)
  then have t2: "fst (recordUndo (undo_numbered 0) 11 (snd (recordUndo (undo_numbered 0) 10 ?t)))"
    by (intro recordUndo_present) (simp add: g ids_of_def get_enrich_id op_id_numbered_op)
  show ?thesis using l hd out g i u ch t1 t2 by simp
qed

text \<open>
  C10, amended. An undo request succeeds exactly when its id is the id of an operation in the
  current history; otherwise it returns failure and leaves the log as it is. So once an
  operation has been evicted by the capacity bound or removed by an undo, a later undo request
  for its id fails for as long as no operation in the history carries that id. With ids that are
  pairwise different this is the case (1) for each of the first \<open>n - 500\<close> operations after
  \<open>n\<close> valid appends to the empty log, and (2) for the oldest operation of any full history
  once a valid append has evicted it, in both cases whatever undos, redos, clears and appends of
  other ids follow; and (3) for an operation that an undo request has just removed, whatever
  undos, clears and appends of other ids follow, until a redo.
\<close>

theorem undo_after_removal:
  "(fst (recordUndo undoOp now s) \<longleftrightarrow> get undoOp ''operationId'' \<in> set (ids_of (drawingHistory s)))
   \<and> (get undoOp ''operationId'' \<notin> set (ids_of (drawingHistory s))
      \<longrightarrow> recordUndo undoOp now s = (False, s))
   \<and> (list_all (\<lambda>x. validateOperation (fst x)) ops \<and> distinct (appended_ids ops)
      \<and> i < length ops - 500 \<and> get undoOp ''operationId'' = appended_ids ops ! i
      \<and> Some (appended_ids ops ! i) \<notin> set (map appended_id later)
    \<longrightarrow> appended_ids ops ! i \<notin> set (ids_of (drawingHistory (run (new_DrawingState t0) (appends ops))))
      \<and> recordUndo undoOp now (run (run (new_DrawingState t0) (appends ops)) later)
        = (False, run (run (new_DrawingState t0) (appends ops)) later))
   \<and> (distinct (ids_of (drawingHistory s)) \<and> drawingHistory s \<noteq> []
      \<and> length (drawingHistory s) = maxHistorySize s \<and> validateOperation operation
      \<and> get undoOp ''operationId'' = get (hd (drawingHistory s)) ''id''
      \<and> op_id operation uuid \<noteq> get undoOp ''operationId''
      \<and> Some (get undoOp ''operationId'') \<notin> set (map appended_id later)
    \<longrightarrow> hd (drawingHistory s) \<notin> set (drawingHistory (snd (addOperation operation uuid t s)))
      \<and> recordUndo undoOp now (run (snd (addOperation operation uuid t s)) later)
        = (False, run (snd (addOperation operation uuid t s)) later))
   \<and> (fst (recordUndo firstUndo tFirst s)
      \<and> get firstUndo ''operationId'' \<notin> set (ids_of (drawingHistory (snd (recordUndo firstUndo tFirst s))))
      \<and> get secondUndo ''operationId'' = get firstUndo ''operationId''
      \<and> \<not> list_ex is_redo later
      \<and> Some (get firstUndo ''operationId'') \<notin> set (map appended_id later)
    \<longrightarrow> recordUndo secondUndo tSecond (run (snd (recordUndo firstUndo tFirst s)) later)
        = (False, run (snd (recordUndo firstUndo tFirst s)) later))
   \<and> (distinct (ids_of (drawingHistory s)) \<and> fst (recordUndo firstUndo tFirst s)
    \<longrightarrow> get firstUndo ''operationId'' \<notin> set (ids_of (drawingHistory (snd (recordUndo firstUndo tFirst s)))))"
proof (intro conjI impI)
  show "fst (recordUndo undoOp now s) \<longleftrightarrow> get undoOp ''operationId'' \<in> set (ids_of (drawingHistory s))"
    by (rule recordUndo_success_iff)
next
  assume "get undoOp ''operationId'' \<notin> set (ids_of (drawingHistory s))"
  then show "recordUndo undoOp now s = (False, s)" by (rule recordUndo_absent)
next
  assume a: "list_all (\<lambda>x. validateOperation (fst x)) ops \<and> distinct (appended_ids ops)
      \<and> i < length ops - 500 \<and> get undoOp ''operationId'' = appended_ids ops ! i
      \<and> Some (appended_ids ops ! i) \<notin> set (map appended_id later)"
  then have ab: "absent (appended_ids ops ! i) (run (new_DrawingState t0) (appends ops))"
    using evicted_absent by blast
  then show "appended_ids ops ! i \<notin> set (ids_of (drawingHistory (run (new_DrawingState t0) (appends ops))))"
    by (simp add: absent_def)
  have "absent (appended_ids ops ! i) (run (run (new_DrawingState t0) (appends ops)) later)"
    using absent_run [OF ab] a by blast
  then show "recordUndo undoOp now (run (run (new_DrawingState t0) (appends ops)) later)
        = (False, run (run (new_DrawingState t0) (appends ops)) later)"
    using a by (simp add: absent_imp_undo_fails)
next
  assume b: "distinct (ids_of (drawingHistory s)) \<and> drawingHistory s \<noteq> []
      \<and> length (drawingHistory s) = maxHistorySize s \<and> validateOperation operation
      \<and> get undoOp ''operationId'' = get (hd (drawingHistory s)) ''id''
      \<and> op_id operation uuid \<noteq> get undoOp ''operationId''
      \<and> Some (get undoOp ''operationId'') \<notin> set (map appended_id later)"
  from b have x: "get undoOp ''operationId'' = get (hd (drawingHistory s)) ''id''" by blast
  from b have n: "op_id operation uuid \<noteq> get (hd (drawingHistory s)) ''id''" by metis
  from b have l: "Some (get (hd (drawingHistory s)) ''id'') \<notin> set (map appended_id later)" by metis
  from b have d: "distinct (ids_of (drawingHistory s))" and ne: "drawingHistory s \<noteq> []"
    and full: "length (drawingHistory s) = maxHistorySize s" and v: "validateOperation operation"
    by blast+
  note e = eviction_step [OF d ne full v n, of t]
  from e show "hd (drawingHistory s) \<notin> set (drawingHistory (snd (addOperation operation uuid t s)))"
    by blast
  from e have ab: "absent (get (hd (drawingHistory s)) ''id'') (snd (addOperation operation uuid t s))"
    by blast
  have "absent (get (hd (drawingHistory s)) ''id'') (run (snd (addOperation operation uuid t s)) later)"
    using absent_run [OF ab l] .
  then show "recordUndo undoOp now (run (snd (addOperation operation uuid t s)) later)
        = (False, run (snd (addOperation operation uuid t s)) later)"
    using x by (rule absent_imp_undo_fails)
next
  assume c: "fst (recordUndo firstUndo tFirst s)
      \<and> get firstUndo ''operationId'' \<notin> set (ids_of (drawingHistory (snd (recordUndo firstUndo tFirst s))))
      \<and> get secondUndo ''operationId'' = get firstUndo ''operationId''
      \<and> \<not> list_ex is_redo later
      \<and> Some (get firstUndo ''operationId'') \<notin> set (map appended_id later)"
  then have "get secondUndo ''operationId''
        \<notin> set (ids_of (drawingHistory (run (snd (recordUndo firstUndo tFirst s)) later)))"
    using out_of_history_run [of "get firstUndo ''operationId''" "snd (recordUndo firstUndo tFirst s)" later]
    by simp
  then show "recordUndo secondUndo tSecond (run (snd (recordUndo firstUndo tFirst s)) later)
        = (False, run (snd (recordUndo firstUndo tFirst s)) later)"
    by (rule recordUndo_absent)
next
  assume d: "distinct (ids_of (drawingHistory s)) \<and> fst (recordUndo firstUndo tFirst s)"
  show "get firstUndo ''operationId'' \<notin> set (ids_of (drawingHistory (snd (recordUndo firstUndo tFirst s))))"
  proof (cases "findIndex (\<lambda>op. get op ''id'' = get firstUndo ''operationId'') (drawingHistory s)")
    case None
    then show ?thesis using d by (simp add: recordUndo_miss)
  next
    case (Some j)
    have jl: "j < length (ids_of (drawingHistory s))"
      and je: "ids_of (drawingHistory s) ! j = get firstUndo ''operationId''"
      using findIndex_Some_less [OF Some] by (simp_all add: ids_of_def)
    have "ids_of (drawingHistory s) ! j
            \<notin> set (take j (ids_of (drawingHistory s)) @ drop (Suc j) (ids_of (drawingHistory s)))"
      using distinct_nth_not_in_rest [OF _ jl] d by blast
    then have "get firstUndo ''operationId''
            \<notin> set (ids_of (take j (drawingHistory s) @ drop (Suc j) (drawingHistory s)))"
      unfolding je by (simp add: ids_of_def take_map drop_map)
    then show ?thesis using recordUndo_hit [OF Some, of tFirst] by simp
  qed
qed

theorem undo_after_removal_witness:
  "\<not> fst (recordUndo (undo_data ''zz'') 20 (run (new_DrawingState 0) one_stroke))
   \<and> fst (recordUndo (undo_data ''a'') 20 (run (new_DrawingState 0) one_stroke))
   \<and> distinct (appended_ids (numbered_ops 501))
   \<and> (0::nat) < length (numbered_ops 501) - 500
   \<and> get (undo_numbered 0) ''operationId'' = appended_ids (numbered_ops 501) ! 0
   \<and> Some (appended_ids (numbered_ops 501) ! 0)
        \<notin> set (map appended_id [Redo redo_data 600, Append (numbered_op 700) ''uuid'' 601])
   \<and> recordUndo (undo_numbered 0) 602
        (run (run (new_DrawingState 0) (appends (numbered_ops 501)))
           [Redo redo_data 600, Append (numbered_op 700) ''uuid'' 601])
      = (False, run (run (new_DrawingState 0) (appends (numbered_ops 501)))
           [Redo redo_data 600, Append (numbered_op 700) ''uuid'' 601])
   \<and> hd (drawingHistory (run (new_DrawingState 0) (appends (numbered_ops 500))))
        = enrich (numbered_op 0) ''uuid'' 0
   \<and> length (drawingHistory (run (new_DrawingState 0) (appends (numbered_ops 500))))
        = maxHistorySize (run (new_DrawingState 0) (appends (numbered_ops 500)))
   \<and> enrich (numbered_op 0) ''uuid'' 0
        \<notin> set (drawingHistory (snd (addOperation (numbered_op 500) ''uuid'' 500
                  (run (new_DrawingState 0) (appends (numbered_ops 500))))))
   \<and> recordUndo (undo_numbered 0) 602
        (run (snd (addOperation (numbered_op 500) ''uuid'' 500
                     (run (new_DrawingState 0) (appends (numbered_ops 500)))))
           [Redo redo_data 600, Append (numbered_op 700) ''uuid'' 601])
      = (False, run (snd (addOperation (numbered_op 500) ''uuid'' 500
                     (run (new_DrawingState 0) (appends (numbered_ops 500)))))
           [Redo redo_data 600, Append (numbered_op 700) ''uuid'' 601])
   \<and> fst (recordUndo (undo_numbered 0) 20 (run (new_DrawingState 0) (appends (numbered_ops 2))))
   \<and> \<not> list_ex is_redo [Append (numbered_op 5) ''uuid'' 30, Undo (undo_numbered 1) 31]
   \<and> recordUndo (undo_numbered 0) 32
        (run (snd (recordUndo (undo_numbered 0) 20
                     (run (new_DrawingState 0) (appends (numbered_ops 2)))))
           [Append (numbered_op 5) ''uuid'' 30, Undo (undo_numbered 1) 31])
      = (False, run (snd (recordUndo (undo_numbered 0) 20
                     (run (new_DrawingState 0) (appends (numbered_ops 2)))))
           [Append (numbered_op 5) ''uuid'' 30, Undo (undo_numbered 1) 31])"
proof -
  let ?later = "[Redo redo_data 600, Append (numbered_op 700) ''uuid'' 601]"
  let ?quiet = "[Append (numbered_op 5) ''uuid'' 30, Undo (undo_numbered 1) 31]"
  let ?one = "run (new_DrawingState 0) one_stroke"
  let ?full = "run (new_DrawingState 0) (appends (numbered_ops 500))"
  let ?two = "run (new_DrawingState 0) (appends (numbered_ops 2))"
  have g: "get (undo_numbered 0) ''operationId'' = JNum 1"
    by (simp add: undo_numbered_def get_def)
  have i0: "appended_ids (numbered_ops 501) ! 0 = JNum 1"
    by (simp add: appended_ids_numbered_ops)
  have l: "Some (JNum 1) \<notin> set (map appended_id ?later)"
    and lq: "Some (JNum 1) \<notin> set (map appended_id ?quiet)"
    and q: "\<not> list_ex is_redo ?quiet"
    by (simp_all add: op_id_numbered_op)
  have p1: "\<not> fst (recordUndo (undo_data ''zz'') 20 ?one)"
    and p2: "fst (recordUndo (undo_data ''a'') 20 ?one)"
    using undo_after_removal [where undoOp = "undo_data ''zz''" and now = 20 and s = ?one]
      undo_after_removal [where undoOp = "undo_data ''a''" and now = 20 and s = ?one]
    by (simp_all add: ids_one_stroke get_undo_data)
  have p3: "recordUndo (undo_numbered 0) 602
        (run (run (new_DrawingState 0) (appends (numbered_ops 501))) ?later)
      = (False, run (run (new_DrawingState 0) (appends (numbered_ops 501))) ?later)"
    using undo_after_removal
      [where ops = "numbered_ops 501" and i = 0 and undoOp = "undo_numbered 0"
         and later = ?later and ?t0.0 = 0 and now = 602]
      numbered_ops_valid [of 501] distinct_numbered_ops [of 501] l
    by (simp add: length_numbered_ops i0 g)
  have hf: "drawingHistory ?full = enriched (numbered_ops 500)"
    by (simp add: history_numbered_ops)
  have hdf: "hd (drawingHistory ?full) = enrich (numbered_op 0) ''uuid'' 0"
    by (simp add: hf hd_enriched_numbered_ops)
  have nef: "drawingHistory ?full \<noteq> []"
    by (simp add: hf enriched_numbered_ops)
  have lenf: "length (drawingHistory ?full) = maxHistorySize ?full"
  proof -
    have "maxHistorySize ?full = 500" by (simp add: maxHistorySize_run new_DrawingState_def)
    moreover have "length (drawingHistory ?full) = 500" by (simp add: hf enriched_numbered_ops)
    ultimately show ?thesis by simp
  qed
  have df: "distinct (ids_of (drawingHistory ?full))"
    by (simp add: ids_numbered_ops distinct_numbered_ops)
  have idf: "get (hd (drawingHistory ?full)) ''id'' = JNum 1"
    by (simp add: hdf get_enrich_id op_id_numbered_op)
  have p4: "hd (drawingHistory ?full)
              \<notin> set (drawingHistory (snd (addOperation (numbered_op 500) ''uuid'' 500 ?full)))
        \<and> recordUndo (undo_numbered 0) 602
             (run (snd (addOperation (numbered_op 500) ''uuid'' 500 ?full)) ?later)
           = (False, run (snd (addOperation (numbered_op 500) ''uuid'' 500 ?full)) ?later)"
    using undo_after_removal
      [where s = ?full and operation = "numbered_op 500" and uuid = "''uuid''" and t = 500
         and undoOp = "undo_numbered 0" and later = ?later and now = 602]
      df nef lenf l
    by (simp add: validateOperation_numbered_op op_id_numbered_op g idf)
  have d2: "distinct (ids_of (drawingHistory ?two))"
    by (simp add: ids_numbered_ops distinct_numbered_ops)
  have "JNum 1 \<in> set (appended_ids (numbered_ops 2))"
    by (simp add: appended_ids_numbered_ops image_iff)
  then have u2: "fst (recordUndo (undo_numbered 0) 20 ?two)"
    by (intro recordUndo_present) (simp add: g ids_numbered_ops)
  have gone: "get (undo_numbered 0) ''operationId''
        \<notin> set (ids_of (drawingHistory (snd (recordUndo (undo_numbered 0) 20 ?two))))"
    using undo_after_removal [where s = ?two and firstUndo = "undo_numbered 0" and tFirst = 20]
      d2 u2 by blast
  have p5: "recordUndo (undo_numbered 0) 32
        (run (snd (recordUndo (undo_numbered 0) 20 ?two)) ?quiet)
      = (False, run (snd (recordUndo (undo_numbered 0) 20 ?two)) ?quiet)"
    using undo_after_removal
      [where s = ?two and firstUndo = "undo_numbered 0" and tFirst = 20
         and secondUndo = "undo_numbered 0" and tSecond = 32 and later = ?quiet]
      u2 gone q lq
    by (simp add: g)
  show ?thesis
    using p1 p2 distinct_numbered_ops [of 501] l p3 hdf lenf p4 u2 q p5
    by (simp add: length_numbered_ops i0 g)
qed

section \<open>Properties of rooms and of the connection handler\<close>

subsection \<open>Broadcast\<close>

lemma broadcast_fold:
  "foldl (\<lambda>s (w, clientInfo).
            if readyState s w = 1 \<and> Some w \<noteq> ex then send w m s else s) s xs
   = s\<lparr> outbox := outbox s @ map (\<lambda>w. (w, m))
                      (filter (\<lambda>w. readyState s w = 1 \<and> Some w \<noteq> ex) (map fst xs)) \<rparr>"
proof (induction xs arbitrary: s)
  case Nil
  then show ?case by simp
next
  case (Cons x xs)
  obtain w clientInfo where x: "x = (w, clientInfo)" by (cases x)
  show ?case by (simp add: x Cons.IH send_def)
qed

lemma broadcast_eq:
  "broadcast a m ex srv
   = srv\<lparr> outbox := outbox srv @ map (\<lambda>w. (w, m))
        (filter (\<lambda>w. Some w \<noteq> ex) (open_clients a srv)) \<rparr>"
  unfolding broadcast_def broadcast_fold open_clients_def
  by (simp add: conj_commute)

lemma broadcastAll_eq:
  "broadcastAll a m srv = srv\<lparr> outbox := outbox srv @ map (\<lambda>w. (w, m)) (open_clients a srv) \<rparr>"
  by (simp add: broadcastAll_def broadcast_eq)

lemma broadcast_heap: "heap (broadcast a m ex srv) = heap srv"
  by (simp add: broadcast_eq)

lemma broadcast_rooms: "rooms (broadcast a m ex srv) = rooms srv"
  by (simp add: broadcast_eq)

lemma open_clients_heap_upd:
  "clients r = clients (heap srv a) \<Longrightarrow>
   open_clients a (srv\<lparr> heap := (heap srv)(a := r) \<rparr>) = open_clients a srv"
  by (simp add: open_clients_def)

lemma handleDraw_outbox:
  "currentRoom conn = Some a \<Longrightarrow> conn_userId conn \<noteq> [] \<Longrightarrow>
   outbox (snd (handleDraw data uuid now (conn, srv)))
   = outbox srv @ map (\<lambda>w. (w, Flat (draw_relay (conn_userId conn) data)))
       (filter (\<lambda>w. w \<noteq> conn_ws conn) (open_clients a srv))"
  by (simp add: handleDraw_def Let_def broadcast_eq open_clients_heap_upd recordOperation_def)

lemma handleErase_outbox:
  "currentRoom conn = Some a \<Longrightarrow> conn_userId conn \<noteq> [] \<Longrightarrow>
   outbox (snd (handleErase data uuid now (conn, srv)))
   = outbox srv @ map (\<lambda>w. (w, Flat (erase_operation (conn_userId conn) data)))
       (filter (\<lambda>w. w \<noteq> conn_ws conn) (open_clients a srv))"
  by (simp add: handleErase_def Let_def broadcast_eq open_clients_heap_upd recordOperation_def)

lemma handleUndo_success:
  "currentRoom conn = Some a \<Longrightarrow> fst (recordUndo data now (drawingState (heap srv a))) \<Longrightarrow>
   outbox (snd (handleUndo data now (conn, srv)))
   = outbox srv @ map (\<lambda>w. (w, Flat (undo_message (conn_userId conn) data))) (open_clients a srv)"
  by (simp add: handleUndo_def Let_def broadcastAll_eq open_clients_heap_upd split_def)

lemma handleRedo_success:
  "currentRoom conn = Some a \<Longrightarrow> fst (recordRedo data now (drawingState (heap srv a))) \<Longrightarrow>
   outbox (snd (handleRedo data now (conn, srv)))
   = outbox srv @ map (\<lambda>w. (w, Flat (redo_message (conn_userId conn) data))) (open_clients a srv)"
  by (simp add: handleRedo_def Let_def broadcastAll_eq open_clients_heap_upd split_def)

lemma handleClearCanvas_outbox:
  "currentRoom conn = Some a \<Longrightarrow>
   outbox (snd (handleClearCanvas data now (conn, srv)))
   = outbox srv @ map (\<lambda>w. (w, Flat (clear_message (conn_userId conn) data))) (open_clients a srv)"
  by (simp add: handleClearCanvas_def Let_def broadcastAll_eq open_clients_heap_upd clearDrawing_def)

lemma handleUndo_miss:
  "currentRoom conn = Some a \<Longrightarrow>
   (\<forall>op \<in> set (drawingHistory (drawingState (heap srv a))). get op ''id'' \<noteq> get data ''operationId'') \<Longrightarrow>
   handleUndo data now (conn, srv) = (conn, srv)"
  by (simp add: handleUndo_def Let_def recordUndo_miss_iff)

lemma handleRedo_empty:
  "currentRoom conn = Some a \<Longrightarrow> redoStack (drawingState (heap srv a)) = [] \<Longrightarrow>
   handleRedo data now (conn, srv) = (conn, srv)"
  by (simp add: handleRedo_def Let_def recordRedo_empty)

lemma drawingState_sample:
  "drawingState (heap (sample_server cl rs cmds) 0) = run (new_DrawingState 0) cmds"
  by (simp add: sample_server_def sample_room_def)

text \<open>
  What the handlers send, for a client map taken as given. Let P be a connection whose current
  room is the room at \<open>a\<close> (its user id, a uuid, is not the empty string). A DRAW or ERASE
  message from P is sent once to each open connection registered in the room other than P, and
  not to P. An UNDO or REDO from P that succeeds, and a CLEAR_CANVAS from P, is sent once to each
  open connection registered in the room. The equations give the calls of \<^verbatim>\<open>send\<close> that
  the handler adds, in order, with the object sent.
\<close>

lemma broadcast_over_client_map:
  assumes r: "currentRoom conn = Some a" and u: "conn_userId conn \<noteq> []"
  shows "outbox (snd (handleDraw data uuid now (conn, srv)))
           = outbox srv @ map (\<lambda>w. (w, Flat [''type'' \<mapsto> JStr ''DRAW'', ''userId'' \<mapsto> JStr (conn_userId conn),
                   ''x0'' \<mapsto> get data ''x0'', ''y0'' \<mapsto> get data ''y0'',
                   ''x1'' \<mapsto> get data ''x1'', ''y1'' \<mapsto> get data ''y1'',
                   ''color'' \<mapsto> get data ''color'', ''size'' \<mapsto> get data ''size'',
                   ''timestamp'' \<mapsto> get data ''timestamp'',
                   ''operationId'' \<mapsto> get data ''operationId'']))
               (filter (\<lambda>w. w \<noteq> conn_ws conn) (open_clients a srv))
       \<and> outbox (snd (handleErase data uuid now (conn, srv)))
           = outbox srv @ map (\<lambda>w. (w, Flat [''type'' \<mapsto> JStr ''ERASE'', ''userId'' \<mapsto> JStr (conn_userId conn),
                   ''x0'' \<mapsto> get data ''x0'', ''y0'' \<mapsto> get data ''y0'',
                   ''x1'' \<mapsto> get data ''x1'', ''y1'' \<mapsto> get data ''y1'',
                   ''size'' \<mapsto> get data ''size'',
                   ''timestamp'' \<mapsto> get data ''timestamp'',
                   ''operationId'' \<mapsto> get data ''operationId'']))
               (filter (\<lambda>w. w \<noteq> conn_ws conn) (open_clients a srv))
       \<and> (fst (recordUndo data now (drawingState (heap srv a))) \<longrightarrow>
            outbox (snd (handleUndo data now (conn, srv)))
            = outbox srv @ map (\<lambda>w. (w, Flat [''type'' \<mapsto> JStr ''UNDO'', ''userId'' \<mapsto> JStr (conn_userId conn),
                    ''operationId'' \<mapsto> get data ''operationId'',
                    ''timestamp'' \<mapsto> get data ''timestamp'']))
                (open_clients a srv))
       \<and> (fst (recordRedo data now (drawingState (heap srv a))) \<longrightarrow>
            outbox (snd (handleRedo data now (conn, srv)))
            = outbox srv @ map (\<lambda>w. (w, Flat [''type'' \<mapsto> JStr ''REDO'', ''userId'' \<mapsto> JStr (conn_userId conn),
                    ''operationId'' \<mapsto> get data ''operationId'',
                    ''timestamp'' \<mapsto> get data ''timestamp'']))
                (open_clients a srv))
       \<and> outbox (snd (handleClearCanvas data now (conn, srv)))
           = outbox srv @ map (\<lambda>w. (w, Flat [''type'' \<mapsto> JStr ''CLEAR_CANVAS'', ''userId'' \<mapsto> JStr (conn_userId conn),
                   ''timestamp'' \<mapsto> get data ''timestamp'']))
               (open_clients a srv)"
  using handleDraw_outbox [OF r u] handleErase_outbox [OF r u] handleUndo_success [OF r]
    handleRedo_success [OF r] handleClearCanvas_outbox [OF r]
  unfolding draw_relay_def erase_operation_def undo_message_def redo_message_def clear_message_def
  by blast

text \<open>
  C9. An undo request whose operation id is not the id of any operation in the history returns
  failure and leaves the whole log (history, redo buffer, audit trail) as it is; so does a redo
  request when the redo buffer is empty. In both cases the handler leaves the connection and the
  process state as they are: nothing is sent to anyone.
\<close>

theorem logical_miss_no_effect:
  "(get undoOp ''operationId'' \<notin> set (ids_of (drawingHistory s))
      \<longrightarrow> recordUndo undoOp now s = (False, s))
   \<and> (redoStack s = [] \<longrightarrow> recordRedo redoOp now s = (False, s))
   \<and> (currentRoom conn = Some a
        \<and> get data ''operationId'' \<notin> set (ids_of (drawingHistory (drawingState (heap srv a))))
      \<longrightarrow> handleUndo data now (conn, srv) = (conn, srv)
        \<and> outbox (snd (handleUndo data now (conn, srv))) = outbox srv)
   \<and> (currentRoom conn = Some a \<and> redoStack (drawingState (heap srv a)) = []
      \<longrightarrow> handleRedo data now (conn, srv) = (conn, srv)
        \<and> outbox (snd (handleRedo data now (conn, srv))) = outbox srv)"
proof (intro conjI impI)
  assume "get undoOp ''operationId'' \<notin> set (ids_of (drawingHistory s))"
  then show "recordUndo undoOp now s = (False, s)" by (rule recordUndo_absent)
next
  assume "redoStack s = []"
  then show "recordRedo redoOp now s = (False, s)" by (rule recordRedo_empty)
next
  assume a: "currentRoom conn = Some a
        \<and> get data ''operationId'' \<notin> set (ids_of (drawingHistory (drawingState (heap srv a))))"
  then have "recordUndo data now (drawingState (heap srv a)) = (False, drawingState (heap srv a))"
    by (simp add: recordUndo_absent)
  then show h: "handleUndo data now (conn, srv) = (conn, srv)"
    using a by (simp add: handleUndo_def Let_def)
  show "outbox (snd (handleUndo data now (conn, srv))) = outbox srv" by (simp add: h)
next
  assume a: "currentRoom conn = Some a \<and> redoStack (drawingState (heap srv a)) = []"
  then show h: "handleRedo data now (conn, srv) = (conn, srv)"
    by (simp add: handleRedo_empty)
  show "outbox (snd (handleRedo data now (conn, srv))) = outbox srv" by (simp add: h)
qed

theorem logical_miss_no_effect_witness:
  "get (undo_data ''zz'') ''operationId''
     \<notin> set (ids_of (drawingHistory (run (new_DrawingState 0) one_stroke)))
   \<and> recordUndo (undo_data ''zz'') 20 (run (new_DrawingState 0) one_stroke)
       = (False, run (new_DrawingState 0) one_stroke)
   \<and> redoStack (run (new_DrawingState 0) one_stroke) = []
   \<and> recordRedo redo_data 20 (run (new_DrawingState 0) one_stroke)
       = (False, run (new_DrawingState 0) one_stroke)
   \<and> handleUndo (undo_data ''zz'') 20 (sample_conn 11, sample_server three_clients third_closed one_stroke)
       = (sample_conn 11, sample_server three_clients third_closed one_stroke)
   \<and> handleRedo redo_data 20 (sample_conn 11, sample_server three_clients third_closed one_stroke)
       = (sample_conn 11, sample_server three_clients third_closed one_stroke)"
proof -
  have r: "currentRoom (sample_conn 11) = Some 0" by (simp add: sample_conn_def new_Conn_def)
  have m: "get (undo_data ''zz'') ''operationId''
     \<notin> set (ids_of (drawingHistory (run (new_DrawingState 0) one_stroke)))"
    by (simp add: ids_one_stroke get_undo_data)
  show ?thesis
    using logical_miss_no_effect
      [where undoOp = "undo_data ''zz''" and now = 20 and redoOp = redo_data
         and s = "run (new_DrawingState 0) one_stroke"
         and conn = "sample_conn 11" and a = 0 and data = "undo_data ''zz''"
         and srv = "sample_server three_clients third_closed one_stroke"]
      logical_miss_no_effect
      [where undoOp = "undo_data ''zz''" and now = 20 and redoOp = redo_data
         and s = "run (new_DrawingState 0) one_stroke"
         and conn = "sample_conn 11" and a = 0 and data = redo_data
         and srv = "sample_server three_clients third_closed one_stroke"]
      r m
    by (simp add: drawingState_sample redoStack_one_stroke)
qed

subsection \<open>Joining\<close>

lemma resolve_color: "resolve (addClient_scope w uid uname assignedColor) ''color'' = Inl (ReferenceError ''color'')"
  by (simp add: resolve_def addClient_scope_def)

lemma addClient_throws:
  "addClient w uid uname now room
   = (Inl (ReferenceError ''color''), room\<lparr> userColorIndex := userColorIndex room + 1 \<rparr>)"
  by (simp add: addClient_def Let_def resolve_color)

text \<open>
  C2. The first join to a new room should return the participant's info with the first colour
  of the palette, register the connection and update the room's activity time. What
  \<^verbatim>\<open>addClient\<close> does there: it stops with a ReferenceError for the identifier
  \<^verbatim>\<open>color\<close>, having only advanced the colour counter; no info is returned, the client map
  is still empty and the activity time is the old one.
\<close>

theorem addClient_first_join:
  "addClient 11 ''user-1'' (JStr ''A'') 5 (new_DrawingRoom (JStr ''r1'') 0)
     = (Inl (ReferenceError ''color''), (new_DrawingRoom (JStr ''r1'') 0)\<lparr> userColorIndex := 1 \<rparr>)
   \<and> clients (snd (addClient 11 ''user-1'' (JStr ''A'') 5 (new_DrawingRoom (JStr ''r1'') 0))) = []
   \<and> lastActivityAt (snd (addClient 11 ''user-1'' (JStr ''A'') 5 (new_DrawingRoom (JStr ''r1'') 0))) = 0"
  by (simp add: addClient_throws new_DrawingRoom_def)

subsection \<open>Drawing\<close>

lemma draw_operation_invalid: "\<not> validateOperation (draw_operation uid data)"
  by (simp add: validateOperation_def draw_operation_def has_field_def get_def
      requiredBaseFields_def requiredDrawFields_def validTypes_def)

lemma handleDraw_never_appends:
  "drawingHistory (drawingState (heap (snd (handleDraw data uuid now (conn, srv))) b))
   = drawingHistory (drawingState (heap srv b))"
  by (simp add: handleDraw_def Let_def broadcast_heap recordOperation_def addOperation_invalid
      draw_operation_invalid split: option.splits)

lemma join_fresh:
  "on_message join_data uuid now fresh_process
   = ((new_Conn 11 ''user-1'' ''User-1'')\<lparr> conn_username := JStr ''A'', currentRoom := Some 0 \<rparr>,
      (new_Server 0 all_open)
        \<lparr> heap := (heap (new_Server 0 all_open))
                     (0 := (new_DrawingRoom (JStr ''r1'') now)\<lparr> userColorIndex := 1 \<rparr>),
          next_ref := 1, rooms := [(JStr ''r1'', 0)],
          outbox := [(11, Flat error_message)] \<rparr>)"
  by (simp add: on_message_def handleJoinRoom_def join_data_def get_def js_or_def fresh_process_def
      getOrCreateRoom_def new_Server_def new_Conn_def addClient_throws send_def Let_def
      new_DrawingRoom_def)

text \<open>
  C1. A connection joins room \<^verbatim>\<open>r1\<close> of a process that has just started and sends the DRAW
  message of the scenario, which has every catalogued field and the operation id \<^verbatim>\<open>o1\<close>.
  The stroke should then be in the history of the room, which is what a later joiner is sent.
  What the handler does there: the operation object it stores has no \<^verbatim>\<open>y1\<close>, validation
  rejects it, and the history of the room is still empty. The same happens for a sender that is
  registered in the room.
\<close>

theorem draw_not_recorded:
  "currentRoom (fst (on_message join_data ''uuid-0'' 1 fresh_process)) = Some 0
   \<and> getRoom (JStr ''r1'')
        (snd (on_message draw_data ''uuid-1'' 2 (on_message join_data ''uuid-0'' 1 fresh_process)))
       = Some 0
   \<and> getDrawingHistory
        (heap (snd (on_message draw_data ''uuid-1'' 2
                      (on_message join_data ''uuid-0'' 1 fresh_process))) 0) = []
   \<and> getDrawingHistory
        (heap (snd (handleDraw draw_data ''uuid-1'' 2
                      (sample_conn 11, sample_server three_clients all_open []))) 0) = []"
proof -
  let ?cs1 = "on_message join_data ''uuid-0'' 1 fresh_process"
  have d: "on_message draw_data ''uuid-1'' 2 ?cs1 = handleDraw draw_data ''uuid-1'' 2 (fst ?cs1, snd ?cs1)"
    by (simp add: on_message_def draw_data_def get_def)
  have c: "currentRoom (fst ?cs1) = Some 0" by (simp add: join_fresh)
  have u: "conn_userId (fst ?cs1) \<noteq> []" by (simp add: join_fresh new_Conn_def)
  have r: "rooms (snd (handleDraw draw_data ''uuid-1'' 2 (fst ?cs1, snd ?cs1))) = rooms (snd ?cs1)"
    using c u by (simp add: handleDraw_def Let_def broadcast_rooms)
  have g: "getRoom (JStr ''r1'') (snd (on_message draw_data ''uuid-1'' 2 ?cs1)) = Some 0"
    unfolding d getRoom_def r by (simp add: join_fresh)
  have h: "getDrawingHistory (heap (snd (on_message draw_data ''uuid-1'' 2 ?cs1)) 0) = []"
    unfolding d getDrawingHistory_def getHistory_def handleDraw_never_appends
    by (simp add: join_fresh new_DrawingRoom_def new_DrawingState_def)
  have s: "getDrawingHistory
        (heap (snd (handleDraw draw_data ''uuid-1'' 2
                      (sample_conn 11, sample_server three_clients all_open []))) 0) = []"
    unfolding getDrawingHistory_def getHistory_def handleDraw_never_appends
    by (simp add: drawingState_sample run_Nil new_DrawingState_def)
  show ?thesis using c g h s by simp
qed

subsection \<open>Leaving\<close>

lemma sole_server_before:
  "getRoom (JStr ''r1'') (sample_server sole_client all_open one_stroke) = Some 0
   \<and> getDrawingHistory (heap (sample_server sole_client all_open one_stroke) 0)
       = [enrich (sample_op ''a'') ''uuid-1'' 10]"
  by (simp add: getRoom_def getDrawingHistory_def getHistory_def drawingState_sample
      history_one_stroke) (simp add: sample_server_def)

lemma on_close_sole:
  "snd (on_close (sample_conn 11, sample_server sole_client all_open one_stroke))
   = (sample_server sole_client all_open one_stroke)
       \<lparr> heap := (heap (sample_server sole_client all_open one_stroke))
                    (0 := destroy ((sample_room sole_client one_stroke)\<lparr> clients := [] \<rparr>)),
         rooms := [] \<rparr>"
  by (simp add: on_close_def Let_def sample_conn_def new_Conn_def sample_server_def
      sample_room_def removeClient_def sole_client_def isEmpty_def deleteRoom_def
      new_DrawingRoom_def new_Server_def)

lemma erase_operation_valid: "validateOperation (erase_operation uid data)"
  by (simp add: validateOperation_def erase_operation_def has_field_def get_def
      requiredBaseFields_def requiredEraseFields_def validTypes_def)

lemma erase_after_join:
  "on_message (erase_data ''e1'') ''uuid-1'' 2 (on_message join_data ''uuid-0'' 1 fresh_process)
   = ((new_Conn 11 ''user-1'' ''User-1'')\<lparr> conn_username := JStr ''A'', currentRoom := Some 0 \<rparr>,
      (new_Server 0 all_open)
        \<lparr> heap := (heap (new_Server 0 all_open))
                     (0 := (new_DrawingRoom (JStr ''r1'') 1)
                             \<lparr> userColorIndex := 1,
                               drawingState := (new_DrawingState 1)
                                 \<lparr> drawingHistory := [enrich (sample_op ''e1'') ''uuid-1'' 2],
                                   operationStack := [sample_op ''e1''] \<rparr>,
                               lastActivityAt := 2 \<rparr>),
          next_ref := 1, rooms := [(JStr ''r1'', 0)],
          outbox := [(11, Flat error_message)] \<rparr>)"
proof -
  have t: "get (erase_data ''e1'') ''type'' = JStr ''ERASE''"
    by (simp add: erase_data_def get_def)
  show ?thesis
    unfolding join_fresh
    by (simp add: on_message_def t handleErase_def Let_def new_Conn_def broadcast_eq
        open_clients_def recordOperation_def addOperation_valid erase_operation_valid
        sample_op_def new_DrawingRoom_def new_DrawingState_def new_Server_def)
qed

lemma close_after_erase:
  "snd (on_close (on_message (erase_data ''e1'') ''uuid-1'' 2
                    (on_message join_data ''uuid-0'' 1 fresh_process)))
   = (new_Server 0 all_open)
        \<lparr> heap := (heap (new_Server 0 all_open))
                     (0 := (new_DrawingRoom (JStr ''r1'') 1)
                             \<lparr> userColorIndex := 1,
                               drawingState := new_DrawingState 1,
                               lastActivityAt := 2 \<rparr>),
          next_ref := 1, rooms := [],
          outbox := [(11, Flat error_message)] \<rparr>"
  unfolding erase_after_join
  by (simp add: on_close_def Let_def removeClient_def isEmpty_def deleteRoom_def destroy_def
      clear_def new_DrawingRoom_def new_DrawingState_def new_Server_def)

text \<open>
  C3. Room \<^verbatim>\<open>r1\<close> has one registered connection and one operation in its log. When that
  connection closes, the room and its log should persist until a sweep finds the room empty and
  idle for an hour. What the close handler does there: it deletes the room from the manager and
  clears its log at once, and a join that follows is given a new room with an empty history.
  The same happens on a process that has just started when a connection sends JOIN_ROOM for
  \<^verbatim>\<open>r1\<close>, then an ERASE message, and closes.
\<close>

theorem last_leave_destroys_room:
  "getRoom (JStr ''r1'') (sample_server sole_client all_open one_stroke) = Some 0
   \<and> getDrawingHistory (heap (sample_server sole_client all_open one_stroke) 0)
       = [enrich (sample_op ''a'') ''uuid-1'' 10]
   \<and> getRoom (JStr ''r1'')
        (snd (on_close (sample_conn 11, sample_server sole_client all_open one_stroke))) = None
   \<and> getDrawingHistory
        (heap (snd (on_close (sample_conn 11, sample_server sole_client all_open one_stroke))) 0)
       = []
   \<and> fst (getOrCreateRoom (JStr ''r1'') 30
        (snd (on_close (sample_conn 11, sample_server sole_client all_open one_stroke)))) = 1
   \<and> getDrawingHistory
        (heap (snd (getOrCreateRoom (JStr ''r1'') 30
           (snd (on_close (sample_conn 11, sample_server sole_client all_open one_stroke))))) 1)
       = []
   \<and> getDrawingHistory
        (heap (snd (on_message (erase_data ''e1'') ''uuid-1'' 2
                      (on_message join_data ''uuid-0'' 1 fresh_process))) 0)
       = [enrich (sample_op ''e1'') ''uuid-1'' 2]
   \<and> getRoom (JStr ''r1'')
        (snd (on_close (on_message (erase_data ''e1'') ''uuid-1'' 2
                          (on_message join_data ''uuid-0'' 1 fresh_process)))) = None
   \<and> getDrawingHistory
        (heap (snd (on_close (on_message (erase_data ''e1'') ''uuid-1'' 2
                                (on_message join_data ''uuid-0'' 1 fresh_process)))) 0)
       = []"
proof -
  let ?after = "snd (on_close (sample_conn 11, sample_server sole_client all_open one_stroke))"
  have g: "getRoom (JStr ''r1'') ?after = None"
    by (simp add: on_close_sole getRoom_def)
  have h: "getDrawingHistory (heap ?after 0) = []"
    by (simp add: on_close_sole getDrawingHistory_def getHistory_def destroy_def clear_def)
  have n: "next_ref ?after = 1" and r: "rooms ?after = []"
    unfolding on_close_sole by (simp_all add: sample_server_def)
  have f: "fst (getOrCreateRoom (JStr ''r1'') 30 ?after) = 1"
    by (simp add: getOrCreateRoom_def r n Let_def)
  have j: "getDrawingHistory (heap (snd (getOrCreateRoom (JStr ''r1'') 30 ?after)) 1) = []"
    by (simp add: getOrCreateRoom_def r n Let_def getDrawingHistory_def getHistory_def
        new_DrawingRoom_def new_DrawingState_def)
  have e: "getDrawingHistory
        (heap (snd (on_message (erase_data ''e1'') ''uuid-1'' 2
                      (on_message join_data ''uuid-0'' 1 fresh_process))) 0)
       = [enrich (sample_op ''e1'') ''uuid-1'' 2]"
    unfolding erase_after_join
    by (simp add: getDrawingHistory_def getHistory_def new_Server_def)
  have cg: "getRoom (JStr ''r1'')
        (snd (on_close (on_message (erase_data ''e1'') ''uuid-1'' 2
                          (on_message join_data ''uuid-0'' 1 fresh_process)))) = None"
    unfolding close_after_erase by (simp add: getRoom_def)
  have ch: "getDrawingHistory
        (heap (snd (on_close (on_message (erase_data ''e1'') ''uuid-1'' 2
                                (on_message join_data ''uuid-0'' 1 fresh_process)))) 0)
       = []"
    unfolding close_after_erase
    by (simp add: getDrawingHistory_def getHistory_def new_Server_def new_DrawingState_def)
  show ?thesis using sole_server_before g h f j e cg ch by simp
qed

text \<open>The periodic sweep keeps an empty room that has been idle for exactly an hour, log
  included, and deletes it once it has been idle for longer.\<close>

lemma sweep_keeps_recent_empty_room:
  "rooms (cleanupSweep 3600000 (sample_server [] all_open one_stroke)) = [(JStr ''r1'', 0)]
   \<and> getDrawingHistory (heap (cleanupSweep 3600000 (sample_server [] all_open one_stroke)) 0)
       = [enrich (sample_op ''a'') ''uuid-1'' 10]"
  by (simp add: cleanupSweep_def oneHourInMs_def sample_server_def sample_room_def isEmpty_def
      new_DrawingRoom_def new_Server_def getDrawingHistory_def getHistory_def history_one_stroke)

lemma sweep_removes_idle_empty_room:
  "rooms (cleanupSweep 3600001 (sample_server [] all_open one_stroke)) = []"
  by (simp add: cleanupSweep_def oneHourInMs_def sample_server_def sample_room_def isEmpty_def
      new_DrawingRoom_def new_Server_def deleteRoom_def)

subsection \<open>Relaying between connections that have joined\<close>

lemma two_joined_eq:
  "two_joined
   = ((new_Conn 11 ''user-1'' ''User-1'')\<lparr> conn_username := JStr ''A'', currentRoom := Some 0 \<rparr>,
      (new_Conn 12 ''user-2'' ''User-2'')\<lparr> conn_username := JStr ''A'', currentRoom := Some 0 \<rparr>,
      (new_Server 0 all_open)
        \<lparr> heap := (heap (new_Server 0 all_open))
                     (0 := (new_DrawingRoom (JStr ''r1'') 1)\<lparr> userColorIndex := 2 \<rparr>),
          next_ref := 1, rooms := [(JStr ''r1'', 0)],
          outbox := [(11, Flat error_message), (12, Flat error_message)] \<rparr>)"
  unfolding two_joined_def join_fresh
  by (simp add: on_message_def handleJoinRoom_def join_data_def get_def js_or_def second_conn_def
      getOrCreateRoom_def new_Server_def new_Conn_def addClient_throws send_def Let_def
      new_DrawingRoom_def numeral_2_eq_2)

lemma joined_A_eq:
  "joined_A = (new_Conn 11 ''user-1'' ''User-1'')\<lparr> conn_username := JStr ''A'', currentRoom := Some 0 \<rparr>"
  by (simp add: joined_A_def two_joined_eq)

lemma joined_B_eq:
  "joined_B = (new_Conn 12 ''user-2'' ''User-2'')\<lparr> conn_username := JStr ''A'', currentRoom := Some 0 \<rparr>"
  by (simp add: joined_B_def two_joined_eq)

lemma joined_srv_eq:
  "joined_srv
   = (new_Server 0 all_open)
        \<lparr> heap := (heap (new_Server 0 all_open))
                     (0 := (new_DrawingRoom (JStr ''r1'') 1)\<lparr> userColorIndex := 2 \<rparr>),
          next_ref := 1, rooms := [(JStr ''r1'', 0)],
          outbox := [(11, Flat error_message), (12, Flat error_message)] \<rparr>"
  by (simp add: joined_srv_def two_joined_eq)

lemma joined_no_clients: "open_clients 0 joined_srv = []"
  by (simp add: joined_srv_eq open_clients_def new_DrawingRoom_def)

lemma joined_uid: "conn_userId joined_A \<noteq> []"
  by (simp add: joined_A_eq new_Conn_def)

lemma joined_room: "currentRoom joined_A = Some 0"
  by (simp add: joined_A_eq new_Conn_def)

lemma erase_by_A:
  "on_message (erase_data ''e1'') ''uuid-1'' 3 (joined_A, joined_srv)
   = (joined_A,
      joined_srv
        \<lparr> heap := (heap joined_srv)
                     (0 := (new_DrawingRoom (JStr ''r1'') 1)
                             \<lparr> userColorIndex := 2,
                               drawingState := (new_DrawingState 1)
                                 \<lparr> drawingHistory := [enrich (sample_op ''e1'') ''uuid-1'' 3],
                                   operationStack := [sample_op ''e1''] \<rparr>,
                               lastActivityAt := 3 \<rparr>) \<rparr>)"
proof -
  have t: "get (erase_data ''e1'') ''type'' = JStr ''ERASE''"
    by (simp add: erase_data_def get_def)
  have n: "conn_userId joined_A = ''user-1''" "conn_ws joined_A = 11"
    by (simp_all add: joined_A_eq new_Conn_def)
  have h: "heap joined_srv 0 = (new_DrawingRoom (JStr ''r1'') 1)\<lparr> userColorIndex := 2 \<rparr>"
    by (simp add: joined_srv_eq)
  show ?thesis
    by (simp add: on_message_def t handleErase_def Let_def joined_room joined_uid n h broadcast_eq
        open_clients_def recordOperation_def addOperation_valid erase_operation_valid
        sample_op_def new_DrawingRoom_def new_DrawingState_def)
qed

lemma joined_A_fields:
  "conn_userId joined_A = ''user-1''" "conn_ws joined_A = 11" "currentRoom joined_A = Some 0"
  by (simp_all add: joined_A_eq new_Conn_def)

lemma drawn_facts:
  "fst drawn = joined_A \<and> outbox (snd drawn) = outbox joined_srv
   \<and> drawingHistory (drawingState (heap (snd drawn) 0)) = []"
proof -
  have t: "get draw_data ''type'' = JStr ''DRAW''" by (simp add: draw_data_def get_def)
  have d: "drawn = handleDraw draw_data ''uuid-1'' 3 (joined_A, joined_srv)"
    by (simp add: drawn_def on_message_def t)
  have o: "outbox (snd drawn) = outbox joined_srv"
    unfolding d
    by (simp add: handleDraw_outbox [OF joined_A_fields(3)] joined_A_fields joined_no_clients)
  have h: "drawingHistory (drawingState (heap (snd drawn) 0)) = []"
    unfolding d handleDraw_never_appends
    by (simp add: joined_srv_eq new_DrawingRoom_def new_DrawingState_def)
  have f: "fst drawn = joined_A"
    unfolding d by (simp add: handleDraw_def Let_def joined_A_fields)
  show ?thesis using f o h by simp
qed

lemma erased_eq:
  "erased
   = (joined_A,
      joined_srv
        \<lparr> heap := (heap joined_srv)
                     (0 := (new_DrawingRoom (JStr ''r1'') 1)
                             \<lparr> userColorIndex := 2,
                               drawingState := (new_DrawingState 1)
                                 \<lparr> drawingHistory := [enrich (sample_op ''e1'') ''uuid-1'' 3],
                                   operationStack := [sample_op ''e1''] \<rparr>,
                               lastActivityAt := 3 \<rparr>) \<rparr>)"
  by (simp add: erased_def erase_by_A)

lemma undone_facts:
  "fst undone = joined_A \<and> outbox (snd undone) = outbox joined_srv
   \<and> clients (heap (snd undone) 0) = []
   \<and> drawingHistory (drawingState (heap (snd undone) 0)) = []
   \<and> redoStack (drawingState (heap (snd undone) 0)) = [enrich (sample_op ''e1'') ''uuid-1'' 3]"
proof -
  have t: "get (undo_data ''e1'') ''type'' = JStr ''UNDO''"
    by (simp add: undo_data_def get_def)
  have i: "get (enrich (sample_op ''e1'') ''uuid-1'' 3) ''id'' = get (undo_data ''e1'') ''operationId''"
    by (simp add: get_enrich_id op_id_sample_op get_undo_data)
  show ?thesis
    unfolding undone_def erased_eq
    by (simp add: on_message_def t handleUndo_def Let_def joined_A_fields recordUndo_def i
        broadcastAll_eq open_clients_def new_DrawingRoom_def new_DrawingState_def)
qed

lemma redone_facts:
  "fst redone = joined_A \<and> outbox (snd redone) = outbox joined_srv
   \<and> clients (heap (snd redone) 0) = []
   \<and> drawingHistory (drawingState (heap (snd redone) 0)) = [enrich (sample_op ''e1'') ''uuid-1'' 3]"
proof -
  have t: "get redo_data ''type'' = JStr ''REDO''" by (simp add: redo_data_def get_def)
  have "undone = (joined_A, snd undone)" using undone_facts by (metis prod.collapse)
  then obtain srv where u: "undone = (joined_A, srv)" ..
  have o: "outbox srv = outbox joined_srv" and c: "clients (heap srv 0) = []"
    and h: "drawingHistory (drawingState (heap srv 0)) = []"
    and r: "redoStack (drawingState (heap srv 0)) = [enrich (sample_op ''e1'') ''uuid-1'' 3]"
    using undone_facts by (simp_all add: u)
  have e: "open_clients 0 srv = []" by (simp add: open_clients_def c)
  show ?thesis
    unfolding redone_def u
    by (simp add: on_message_def t handleRedo_def Let_def joined_A_fields recordRedo_def r h
        broadcastAll_eq e open_clients_heap_upd o c)
qed

lemma cleared_facts:
  "outbox (snd cleared) = outbox joined_srv
   \<and> drawingHistory (drawingState (heap (snd cleared) 0)) = []"
proof -
  have t: "get clear_data ''type'' = JStr ''CLEAR_CANVAS''" by (simp add: clear_data_def get_def)
  have "redone = (joined_A, snd redone)" using redone_facts by (metis prod.collapse)
  then obtain srv where u: "redone = (joined_A, srv)" ..
  have o: "outbox srv = outbox joined_srv" and c: "clients (heap srv 0) = []"
    using redone_facts by (simp_all add: u)
  have e: "open_clients 0 srv = []" by (simp add: open_clients_def c)
  show ?thesis
    unfolding cleared_def u
    by (simp add: on_message_def t handleClearCanvas_def Let_def joined_A_fields
        broadcastAll_eq e open_clients_heap_upd o c clearDrawing_def clear_def)
qed

text \<open>
  C8. Connections A and B, both open, have each sent JOIN_ROOM for room \<^verbatim>\<open>r1\<close>; each has
  that room as its current room. A DRAW or ERASE message from A should then be sent to B and not
  to A, and a successful UNDO or REDO and a CLEAR_CANVAS from A should be sent to both. What the
  handlers do there: the join of each connection stopped in \<^verbatim>\<open>addClient\<close> before the
  connection was put in the room's client map, which is the only thing \<^verbatim>\<open>broadcast\<close>
  goes through; the map is empty, and nothing is sent to anyone. After A's DRAW, after A's ERASE
  (which is recorded), after A's UNDO and REDO of it (which both succeed) and after A's
  CLEAR_CANVAS, the only messages sent are still the two error replies to the joins.
\<close>

theorem relay_reaches_no_connection:
  "currentRoom joined_A = Some 0 \<and> currentRoom joined_B = Some 0
   \<and> conn_ws joined_A = 11 \<and> conn_ws joined_B = 12
   \<and> getRoom (JStr ''r1'') joined_srv = Some 0
   \<and> readyState joined_srv 11 = 1 \<and> readyState joined_srv 12 = 1
   \<and> clients (heap joined_srv 0) = []
   \<and> outbox joined_srv
       = [(11, Flat [''type'' \<mapsto> JStr ''ERROR'',
                     ''message'' \<mapsto> JStr ''Server failed to process your message'']),
          (12, Flat [''type'' \<mapsto> JStr ''ERROR'',
                     ''message'' \<mapsto> JStr ''Server failed to process your message''])]
   \<and> outbox (snd drawn) = outbox joined_srv
   \<and> outbox (snd erased) = outbox joined_srv
   \<and> getDrawingHistory (heap (snd erased) 0) = [enrich (sample_op ''e1'') ''uuid-1'' 3]
   \<and> fst (recordUndo (undo_data ''e1'') 4 (drawingState (heap (snd erased) 0)))
   \<and> getDrawingHistory (heap (snd undone) 0) = []
   \<and> outbox (snd undone) = outbox joined_srv
   \<and> fst (recordRedo redo_data 5 (drawingState (heap (snd undone) 0)))
   \<and> getDrawingHistory (heap (snd redone) 0) = [enrich (sample_op ''e1'') ''uuid-1'' 3]
   \<and> outbox (snd redone) = outbox joined_srv
   \<and> getDrawingHistory (heap (snd cleared) 0) = []
   \<and> outbox (snd cleared) = outbox joined_srv"
proof -
  have a: "currentRoom joined_A = Some 0 \<and> currentRoom joined_B = Some 0
     \<and> conn_ws joined_A = 11 \<and> conn_ws joined_B = 12"
    by (simp add: joined_A_eq joined_B_eq new_Conn_def)
  have b: "getRoom (JStr ''r1'') joined_srv = Some 0
     \<and> readyState joined_srv 11 = 1 \<and> readyState joined_srv 12 = 1
     \<and> clients (heap joined_srv 0) = []"
    by (simp add: joined_srv_eq getRoom_def new_Server_def all_open_def new_DrawingRoom_def)
  have c: "outbox joined_srv
       = [(11, Flat [''type'' \<mapsto> JStr ''ERROR'',
                     ''message'' \<mapsto> JStr ''Server failed to process your message'']),
          (12, Flat [''type'' \<mapsto> JStr ''ERROR'',
                     ''message'' \<mapsto> JStr ''Server failed to process your message''])]"
    by (simp add: joined_srv_eq error_message_def)
  have e: "outbox (snd erased) = outbox joined_srv
     \<and> getDrawingHistory (heap (snd erased) 0) = [enrich (sample_op ''e1'') ''uuid-1'' 3]"
    by (simp add: erased_eq getDrawingHistory_def getHistory_def)
  have u: "fst (recordUndo (undo_data ''e1'') 4 (drawingState (heap (snd erased) 0)))"
    by (rule recordUndo_present)
       (simp add: erased_eq ids_of_def get_enrich_id op_id_sample_op get_undo_data)
  have r: "fst (recordRedo redo_data 5 (drawingState (heap (snd undone) 0)))"
    using recordRedo_nonempty [of "drawingState (heap (snd undone) 0)" redo_data 5] undone_facts
    by simp
  show ?thesis
    using a b c drawn_facts e u undone_facts r redone_facts cleared_facts
    by (simp add: getDrawingHistory_def getHistory_def)
qed

end
